theory Spec2Isabelle
  imports Complex_Main
begin

section \<open>Configuration and telemetry\<close>

text \<open>
  The embedding follows \<^verbatim>\<open>bitaxe_status_logger.py\<close>. Python integers are \<open>int\<close>;
  JSON numbers, Python floats and \<^verbatim>\<open>time.time()\<close> stamps are exact \<open>real\<close>
  numbers (rounding of IEEE doubles is outside the model). The \<^verbatim>\<open>CONFIG\<close>
  dictionary is a record holding the values of the source.
\<close>

record config =
  run_duration :: real
  log_interval :: real
  status_interval :: real
  max_temp_warning :: real
  max_temp_critical :: real
  max_vrtemp_warning :: real
  max_vrtemp_critical :: real
  max_power_warning :: real
  max_power_critical :: real
  min_frequency :: int
  min_core_voltage :: int
  critical_advance_margin :: real
  readings_to_advance :: nat
  advance_delay :: real

definition CONFIG :: config where
  "CONFIG = \<lparr> run_duration = 600, log_interval = 10, status_interval = 10,
     max_temp_warning = 62, max_temp_critical = 65,
     max_vrtemp_warning = 80, max_vrtemp_critical = 85,
     max_power_warning = 23, max_power_critical = 26,
     min_frequency = 400, min_core_voltage = 1000,
     critical_advance_margin = 2, readings_to_advance = 5, advance_delay = 7200 \<rparr>"

text \<open>The keys of the \<^verbatim>\<open>system_info\<close> dictionary, in the order of the source.\<close>

datatype metric = Frequency | Power | Voltage | Current | Temp | VrTemp | HashRate
  | CoreVoltage | CoreVoltageActual | Jth

type_synonym info = "metric \<Rightarrow> real"

section \<open>The table-driven selector\<close>

text \<open>
  \<^verbatim>\<open>value_pairs\<close> is the list of (voltage, frequency) tuples. The lines the program
  prints to the console are values of \<open>message\<close>, one constructor for each
  \<^verbatim>\<open>print\<close> of the source with the numbers it formats; the two globals \<^verbatim>\<open>last_fallback_time\<close> and
  \<^verbatim>\<open>last_fallback_voltage\<close> form the record \<open>fallback\<close>, passed in and returned.
\<close>

datatype reason = CriticalTemperature | CriticalVrTemperature | CriticalPower

datatype message =
    CriticalDropping reason int int
  | AlreadyAtLowest
  | AdvanceDelayed int
  | Increasing int int
  | LoadedPairs nat
  | SendingPatch int int
  | SetTo int int
  | Verified real real
  | SettingsDidNotApply int int real real
  | CouldNotVerify
  | ErrorSettingSystem
  | ErrorFetching
  | RebootedOk
  | ErrorRebooting
  | SkippingRun nat int int
  | RunStarted nat int int
  | Retrying
  | DetectedIdentical int real
  | RebootFailed
  | FailedToAdjust int int
  | CriticalReducing reason int int
  | SettingBest int int
  | FailedBest
  | NoValidRunsOrMonitor
  | StatusDisplay nat int nat
  | RequestedInitial int int
  | FailedInitial
  | InitialApplied int int
  | TestingFromTo int int int
  | MonitoringAt int
  | UsingValues
  | NoValidRuns
  | SummaryDisplay
  | MonitorTerminated

record fallback =
  last_fallback_time :: "real option"
  last_fallback_voltage :: "int option"

text \<open>\<^verbatim>\<open>list.index\<close>: the first position of the element, \<open>None\<close> for ValueError.\<close>

fun index_of :: "'a list \<Rightarrow> 'a \<Rightarrow> nat option" where
  "index_of [] x = None"
| "index_of (y # ys) x =
     (if y = x then Some 0 else (case index_of ys x of None \<Rightarrow> None | Some i \<Rightarrow> Some (Suc i)))"

text \<open>
  The \<^verbatim>\<open>for i, (volt, _) in enumerate(value_pairs)\<close> loop from position \<open>i\<close>: \<open>Some\<close> is
  the index assigned before \<^verbatim>\<open>break\<close>, \<open>None\<close> means the loop ran to its \<^verbatim>\<open>else\<close>.
  \<open>current_index_of\<close> is the \<^verbatim>\<open>try\<close> statement that assigns \<^verbatim>\<open>current_index\<close>; the source
  reaches it with a non-empty table only.
\<close>

fun closest_lower :: "nat \<Rightarrow> (int \<times> int) list \<Rightarrow> int \<Rightarrow> nat option" where
  "closest_lower i [] core_voltage = None"
| "closest_lower i ((volt, _) # rest) core_voltage =
     (if volt \<ge> core_voltage then Some (nat (max 0 (int i - 1)))
      else closest_lower (Suc i) rest core_voltage)"

definition current_index_of :: "(int \<times> int) list \<Rightarrow> int \<Rightarrow> int \<Rightarrow> nat" where
  "current_index_of value_pairs frequency core_voltage =
     (case index_of value_pairs (core_voltage, frequency) of
        Some i \<Rightarrow> i
      | None \<Rightarrow>
          (case closest_lower 0 value_pairs core_voltage of
             Some i \<Rightarrow> i
           | None \<Rightarrow> length value_pairs - 1))"

definition critical_hit :: "info \<Rightarrow> bool" where
  "critical_hit si \<longleftrightarrow>
     si Temp \<ge> max_temp_critical CONFIG \<or>
     si VrTemp \<ge> max_vrtemp_critical CONFIG \<or>
     si Power \<ge> max_power_critical CONFIG"

text \<open>The \<^verbatim>\<open>reason\<close> string of the critical branches: the first metric that is critical.\<close>

definition critical_reason :: "info \<Rightarrow> reason" where
  "critical_reason si =
     (if si Temp \<ge> max_temp_critical CONFIG then CriticalTemperature
      else if si VrTemp \<ge> max_vrtemp_critical CONFIG then CriticalVrTemperature
      else CriticalPower)"

definition safe_margin :: "info \<Rightarrow> bool" where
  "safe_margin si \<longleftrightarrow>
     si Temp \<le> max_temp_critical CONFIG - critical_advance_margin CONFIG \<and>
     si VrTemp \<le> max_vrtemp_critical CONFIG - critical_advance_margin CONFIG \<and>
     si Power \<le> max_power_critical CONFIG - critical_advance_margin CONFIG"

text \<open>
  The cooldown check: \<open>Some next_voltage\<close> when \<^verbatim>\<open>can_advance\<close> is set to False (and
  the "Advance delayed" line is printed), \<open>None\<close> when it stays True.
\<close>

definition advance_blocked ::
  "(int \<times> int) list \<Rightarrow> nat \<Rightarrow> real \<Rightarrow> fallback \<Rightarrow> int \<Rightarrow> int option" where
  "advance_blocked value_pairs current_index now fb core_voltage =
     (case (last_fallback_time fb, last_fallback_voltage fb) of
        (Some t, Some lv) \<Rightarrow>
          (if now - t < advance_delay CONFIG then
             (let next_voltage =
                (if current_index < length value_pairs - 1
                 then fst (value_pairs ! (current_index + 1)) else core_voltage)
              in if next_voltage \<ge> lv then Some next_voltage else None)
           else None)
      | _ \<Rightarrow> None)"

text \<open>
  \<^verbatim>\<open>adjust_settings_based_on_values(frequency, core_voltage)\<close>: \<open>si\<close> is the
  \<^verbatim>\<open>system_info\<close> of the last poll and \<open>now\<close> the value of \<^verbatim>\<open>time.time()\<close>. The result
  is the returned (frequency, voltage), the fallback globals and the lines printed.
\<close>

definition adjust_settings_based_on_values ::
  "(int \<times> int) list \<Rightarrow> info \<Rightarrow> real \<Rightarrow> fallback \<Rightarrow> int \<Rightarrow> int
     \<Rightarrow> (int \<times> int) \<times> fallback \<times> message list" where
  "adjust_settings_based_on_values value_pairs si now fb frequency core_voltage =
     (if value_pairs = [] then ((frequency, core_voltage), fb, [])
      else
        let current_index = current_index_of value_pairs frequency core_voltage in
        if critical_hit si then
          (if current_index > 0 then
             (case value_pairs ! (current_index - 1) of (new_voltage, new_frequency) \<Rightarrow>
                ((new_frequency, new_voltage),
                 \<lparr> last_fallback_time = Some now, last_fallback_voltage = Some core_voltage \<rparr>,
                 [CriticalDropping (critical_reason si) new_frequency new_voltage]))
           else ((frequency, core_voltage), fb, [AlreadyAtLowest]))
        else
          (case advance_blocked value_pairs current_index now fb core_voltage of
             Some next_voltage \<Rightarrow> ((frequency, core_voltage), fb, [AdvanceDelayed next_voltage])
           | None \<Rightarrow>
               (if safe_margin si \<and> current_index < length value_pairs - 1 then
                  (case value_pairs ! (current_index + 1) of (new_voltage, new_frequency) \<Rightarrow>
                     ((new_frequency, new_voltage), fb, [Increasing new_frequency new_voltage]))
                else ((frequency, core_voltage), fb, []))))"

text \<open>
  The index derivation as the specification words it, for comparison with
  \<open>current_index_of\<close>: the exact-match position when the pair is in the table, otherwise
  an entry of voltage at most the current voltage that is nearest to it.
\<close>

definition spec_derived_index :: "(int \<times> int) list \<Rightarrow> int \<Rightarrow> int \<Rightarrow> nat \<Rightarrow> bool" where
  "spec_derived_index value_pairs frequency core_voltage i \<longleftrightarrow>
     (if (core_voltage, frequency) \<in> set value_pairs
      then index_of value_pairs (core_voltage, frequency) = Some i
      else i < length value_pairs \<and> fst (value_pairs ! i) \<le> core_voltage \<and>
           list_all (\<lambda>p. core_voltage < fst p \<or> fst p \<le> fst (value_pairs ! i)) value_pairs)"


section \<open>Loading the operating-point table\<close>

text \<open>
  Exceptions of the program are values of \<open>py_error\<close>. A CSV file is \<open>None\<close> when
  \<^verbatim>\<open>open\<close> raises FileNotFoundError, and otherwise the list of rows that \<^verbatim>\<open>csv.reader\<close>
  yields, each row a list of cells. The builtin \<^verbatim>\<open>int\<close> on a cell is the parameter
  \<open>to_int\<close> (\<open>None\<close> where it raises ValueError).
\<close>

datatype py_error = ParserError | FileNotFoundError | ValueError | ZeroDivisionError

text \<open>
  The list comprehension \<^verbatim>\<open>[(int(row[0]), int(row[1])) for row in reader if len(row) >= 2]\<close>:
  \<open>None\<close> when some \<^verbatim>\<open>int\<close> call raises.
\<close>

fun rows_to_pairs :: "(string \<Rightarrow> int option) \<Rightarrow> string list list \<Rightarrow> (int \<times> int) list option" where
  "rows_to_pairs to_int [] = Some []"
| "rows_to_pairs to_int (row # rows) =
     (if length row \<ge> 2 then
        (case to_int (row ! 0) of
           None \<Rightarrow> None
         | Some volt \<Rightarrow>
             (case to_int (row ! 1) of
                None \<Rightarrow> None
              | Some freq \<Rightarrow>
                  (case rows_to_pairs to_int rows of
                     None \<Rightarrow> None
                   | Some pairs \<Rightarrow> Some ((volt, freq) # pairs))))
      else rows_to_pairs to_int rows)"

text \<open>
  \<^verbatim>\<open>read_values_csv\<close>: \<^verbatim>\<open>next(reader, None)\<close> consumes the first row whatever it holds
  (\<open>tl\<close>), the stable sort by the first column is \<open>sort_key fst\<close>, and every exception
  other than FileNotFoundError is raised again as ValueError. \<open>Inr\<close> is the new value of
  the global \<^verbatim>\<open>value_pairs\<close>.
\<close>

definition read_values_csv ::
  "(string \<Rightarrow> int option) \<Rightarrow> string list list option \<Rightarrow> py_error + (int \<times> int) list" where
  "read_values_csv to_int file =
     (case file of
        None \<Rightarrow> Inl FileNotFoundError
      | Some rows \<Rightarrow>
          (case rows_to_pairs to_int (tl rows) of
             None \<Rightarrow> Inl ValueError
           | Some pairs \<Rightarrow>
               (let value_pairs = sort_key fst pairs
                in if value_pairs = [] then Inl ValueError else Inr value_pairs)))"

text \<open>
  A reader of plain decimal cells (ASCII digits only), on which \<^verbatim>\<open>int\<close> agrees; it
  instantiates \<open>to_int\<close> in examples.
\<close>

definition digit_value :: "char \<Rightarrow> nat option" where
  "digit_value c =
     (let n = (of_char c :: nat) in if 48 \<le> n \<and> n \<le> 57 then Some (n - 48) else None)"

fun decimal_from :: "nat \<Rightarrow> string \<Rightarrow> nat option" where
  "decimal_from acc [] = Some acc"
| "decimal_from acc (c # cs) =
     (case digit_value c of None \<Rightarrow> None | Some d \<Rightarrow> decimal_from (10 * acc + d) cs)"

definition decimal :: "string \<Rightarrow> int option" where
  "decimal s = (if s = [] then None else map_option int (decimal_from 0 s))"

section \<open>Telemetry samples and aggregates\<close>

text \<open>
  The JSON object of \<^verbatim>\<open>/api/system/info\<close> maps keys to numbers; \<open>get_or\<close> is
  \<^verbatim>\<open>data.get(key, default)\<close>. Python's \<^verbatim>\<open>/\<close> raises ZeroDivisionError on a zero divisor.
\<close>

type_synonym json = "string \<rightharpoonup> real"

definition get_or :: "json \<Rightarrow> string \<Rightarrow> real \<Rightarrow> real" where
  "get_or data k d = (case data k of Some x \<Rightarrow> x | None \<Rightarrow> d)"

definition truediv :: "real \<Rightarrow> real \<Rightarrow> py_error + real" where
  "truediv a b = (if b = 0 then Inl ZeroDivisionError else Inr (a / b))"

text \<open>
  \<^verbatim>\<open>power / (hashRate / 1000) if hashRate > 0 else 0\<close>, the value stored under "jth".
\<close>

definition derive_jth :: "real \<Rightarrow> real \<Rightarrow> py_error + real" where
  "derive_jth pwr hashRate =
     (if hashRate > 0 then
        (case truediv hashRate 1000 of
           Inl err \<Rightarrow> Inl err
         | Inr per_th \<Rightarrow> truediv pwr per_th)
      else Inr 0)"

text \<open>The ten assignments to \<^verbatim>\<open>system_info\<close> in \<^verbatim>\<open>fetch_system_info\<close>.\<close>

definition read_info :: "json \<Rightarrow> py_error + info" where
  "read_info data =
     (case derive_jth (get_or data ''power'' 0) (get_or data ''hashRate'' 0) of
        Inl err \<Rightarrow> Inl err
      | Inr jth \<Rightarrow>
          Inr (\<lambda>key. case key of
                 Frequency \<Rightarrow> get_or data ''frequency'' 550
               | Power \<Rightarrow> get_or data ''power'' 0
               | Voltage \<Rightarrow> get_or data ''voltage'' 0
               | Current \<Rightarrow> get_or data ''current'' 0
               | Temp \<Rightarrow> get_or data ''temp'' 0
               | VrTemp \<Rightarrow> get_or data ''vrTemp'' 0
               | HashRate \<Rightarrow> get_or data ''hashRate'' 0
               | CoreVoltage \<Rightarrow> get_or data ''coreVoltage'' 1250
               | CoreVoltageActual \<Rightarrow> get_or data ''coreVoltageActual'' 1250
               | Jth \<Rightarrow> jth))"

text \<open>
  Minima and maxima start at \<^verbatim>\<open>float('inf')\<close> and \<^verbatim>\<open>float('-inf')\<close>: values of \<open>ext\<close>.
  The builtins \<^verbatim>\<open>min(a, b)\<close> and \<^verbatim>\<open>max(a, b)\<close> keep their first argument unless the
  second is strictly smaller (larger).
\<close>

datatype ext = NegInf | Fin real | PosInf

fun ext_less :: "ext \<Rightarrow> ext \<Rightarrow> bool" where
  "ext_less NegInf NegInf = False"
| "ext_less NegInf _ = True"
| "ext_less (Fin a) (Fin b) = (a < b)"
| "ext_less (Fin a) PosInf = True"
| "ext_less (Fin a) NegInf = False"
| "ext_less PosInf _ = False"

definition ext_le :: "ext \<Rightarrow> ext \<Rightarrow> bool" where
  "ext_le a b \<longleftrightarrow> \<not> ext_less b a"

definition py_min :: "ext \<Rightarrow> ext \<Rightarrow> ext" where
  "py_min a b = (if ext_less b a then b else a)"

definition py_max :: "ext \<Rightarrow> ext \<Rightarrow> ext" where
  "py_max a b = (if ext_less a b then b else a)"

text \<open>
  The four per-run dictionaries and the list \<^verbatim>\<open>hashrate_readings\<close> that
  \<^verbatim>\<open>fetch_system_info\<close> receives, with their initial values in \<^verbatim>\<open>run_test\<close>.
\<close>

record stats =
  run_min_values :: "metric \<Rightarrow> ext"
  run_max_values :: "metric \<Rightarrow> ext"
  run_sum_values :: "metric \<Rightarrow> real"
  run_count_values :: "metric \<Rightarrow> nat"
  hashrate_readings :: "real list"

definition new_stats :: stats where
  "new_stats = \<lparr> run_min_values = (\<lambda>key. PosInf), run_max_values = (\<lambda>key. NegInf),
     run_sum_values = (\<lambda>key. 0), run_count_values = (\<lambda>key. 0), hashrate_readings = [] \<rparr>"

text \<open>
  The loop \<^verbatim>\<open>for key in system_info\<close> of \<^verbatim>\<open>fetch_system_info\<close>, every key updated once,
  followed by the append to \<^verbatim>\<open>hashrate_readings\<close>.
\<close>

definition update_stats :: "info \<Rightarrow> stats \<Rightarrow> stats" where
  "update_stats si r =
     r \<lparr> run_min_values := (\<lambda>key. py_min (run_min_values r key) (Fin (si key))),
         run_max_values := (\<lambda>key. py_max (run_max_values r key) (Fin (si key))),
         run_sum_values := (\<lambda>key. run_sum_values r key + si key),
         run_count_values := (\<lambda>key. run_count_values r key + 1),
         hashrate_readings := hashrate_readings r @ [si HashRate] \<rparr>"

text \<open>The same loop on the globals \<^verbatim>\<open>global_min_values\<close> and \<^verbatim>\<open>global_max_values\<close>.\<close>

definition update_global ::
  "info \<Rightarrow> (metric \<Rightarrow> ext) \<times> (metric \<Rightarrow> ext) \<Rightarrow> (metric \<Rightarrow> ext) \<times> (metric \<Rightarrow> ext)" where
  "update_global si g =
     ((\<lambda>key. py_min (fst g key) (Fin (si key))), (\<lambda>key. py_max (snd g key) (Fin (si key))))"

definition new_global :: "(metric \<Rightarrow> ext) \<times> (metric \<Rightarrow> ext)" where
  "new_global = ((\<lambda>key. PosInf), (\<lambda>key. NegInf))"

section \<open>The device, the operator and the state of the process\<close>

text \<open>
  What the program cannot control is the record \<open>env\<close>. The replies of the device are
  indexed by the number of HTTP requests issued before, and the reply to a status read
  may depend on the payloads sent so far, so every behaviour of a device is some \<open>env\<close>:
  \<open>False\<close> and \<open>None\<close> stand for a \<^verbatim>\<open>requests.RequestException\<close>. \<open>sigint_at\<close> is the
  time at which the operator's SIGINT sets \<^verbatim>\<open>is_interrupted\<close>, and \<open>files\<close> holds the CSV
  files by path.
\<close>

record env =
  patch_reply :: "nat \<Rightarrow> bool"
  info_reply :: "nat \<Rightarrow> (int \<times> int) list \<Rightarrow> json option"
  restart_reply :: "nat \<Rightarrow> bool"
  sigint_at :: "real option"
  files :: "string \<Rightarrow> string list list option"

text \<open>The rows appended to the readings file and the entries of the summaries file.\<close>

datatype log_note = NoNote | RebootNote int | AdjustedNote int int | ReducedNote reason

datatype csv = ReadingsFile | SummariesFile

record reading =
  rd_time :: real
  rd_info :: "metric \<Rightarrow> real option"
  rd_note :: log_note

datatype summary_entry =
    RunSummary nat int int real stats
  | GlobalSummary "metric \<Rightarrow> ext" "metric \<Rightarrow> ext" "(real \<times> int option \<times> int option) option"

text \<open>
  The globals of the module and the effects of the process. \<open>clock\<close> is
  \<^verbatim>\<open>time.time()\<close>, counted from the start of the program; only \<^verbatim>\<open>time.sleep\<close> advances
  it. \<open>sent\<close> lists the payloads (frequency, coreVoltage) of the PATCH requests issued,
  \<open>console\<close> the lines printed. Appends to the two CSV files always succeed.
\<close>

record world =
  clock :: real
  requests :: nat
  sent :: "(int \<times> int) list"
  console :: "message list"
  readings_file :: "reading list"
  summaries_file :: "summary_entry list"
  system_info :: "metric \<Rightarrow> real option"
  global_min_values :: "metric \<Rightarrow> ext"
  global_max_values :: "metric \<Rightarrow> ext"
  critical_temp_reached :: bool
  initial_frequency :: int
  initial_core_voltage :: int
  best_hashrate :: real
  best_frequency :: "int option"
  best_voltage :: "int option"
  value_pairs :: "(int \<times> int) list"
  last_fallback :: fallback

definition say :: "message \<Rightarrow> world \<Rightarrow> world" where
  "say m w = w \<lparr> console := console w @ [m] \<rparr>"

definition sleep :: "real \<Rightarrow> world \<Rightarrow> world" where
  "sleep d w = w \<lparr> clock := clock w + d \<rparr>"

definition is_interrupted :: "env \<Rightarrow> world \<Rightarrow> bool" where
  "is_interrupted e w = (case sigint_at e of None \<Rightarrow> False | Some t \<Rightarrow> t \<le> clock w)"

section \<open>The telemetry client\<close>

text \<open>
  \<^verbatim>\<open>fetch_system_info\<close>. An exception that its \<^verbatim>\<open>except\<close> clause does not catch is
  \<open>Inl\<close>, with the request counted (the assignments to \<^verbatim>\<open>system_info\<close> made before
  the exception are not recorded). The first component of \<open>Inr\<close> is \<open>None\<close> where the
  source returns False and the sample just stored in \<^verbatim>\<open>system_info\<close> where it returns
  True.
\<close>

definition fetch_system_info ::
  "env \<Rightarrow> stats \<Rightarrow> world \<Rightarrow> (py_error \<times> world) + (info option \<times> stats \<times> world)" where
  "fetch_system_info e st w =
     (let w1 = w \<lparr> requests := Suc (requests w) \<rparr> in
      case info_reply e (requests w) (sent w) of
        None \<Rightarrow> Inr (None, st, say ErrorFetching w1)
      | Some data \<Rightarrow>
          (case read_info data of
             Inl err \<Rightarrow> Inl (err, w1)
           | Inr si \<Rightarrow>
               (let g = update_global si (global_min_values w1, global_max_values w1)
                in Inr (Some si, update_stats si st,
                     w1 \<lparr> system_info := (\<lambda>key. Some (si key)),
                          global_min_values := fst g, global_max_values := snd g \<rparr>))))"

text \<open>
  \<^verbatim>\<open>set_system_settings\<close>: clamp, PATCH, five seconds of sleep, read back, compare.
\<close>

definition set_system_settings :: "env \<Rightarrow> int \<Rightarrow> int \<Rightarrow> world \<Rightarrow> bool \<times> world" where
  "set_system_settings e frequency0 core_voltage0 w =
     (let frequency = max (min_frequency CONFIG) frequency0;
          core_voltage = max (min_core_voltage CONFIG) core_voltage0;
          w1 = (say (SendingPatch frequency core_voltage) w)
                 \<lparr> sent := sent w @ [(frequency, core_voltage)], requests := Suc (requests w) \<rparr>
      in if \<not> patch_reply e (requests w) then (False, say ErrorSettingSystem w1)
         else
           (let w2 = sleep 5 (say (SetTo frequency core_voltage) w1);
                w3 = w2 \<lparr> requests := Suc (requests w2) \<rparr>
            in case info_reply e (requests w2) (sent w2) of
                 None \<Rightarrow> (False, say CouldNotVerify w3)
               | Some data \<Rightarrow>
                   (let actual_freq = get_or data ''frequency'' 0;
                        actual_volt = get_or data ''coreVoltage'' 0;
                        w4 = say (Verified actual_freq actual_volt) w3
                    in if \<bar>actual_freq - real_of_int frequency\<bar> > 1 \<or>
                          \<bar>actual_volt - real_of_int core_voltage\<bar> > 1
                       then (False,
                             say (SettingsDidNotApply frequency core_voltage actual_freq actual_volt) w4)
                       else (True, w4))))"

text \<open>
  The read-back is within the tolerance of 1: the negation of the test that makes
  \<^verbatim>\<open>set_system_settings\<close> report that the settings did not apply.
\<close>

definition readback_matches :: "json \<Rightarrow> int \<Rightarrow> int \<Rightarrow> bool" where
  "readback_matches data f v \<longleftrightarrow>
     \<bar>get_or data ''frequency'' 0 - real_of_int f\<bar> \<le> 1 \<and>
     \<bar>get_or data ''coreVoltage'' 0 - real_of_int v\<bar> \<le> 1"

definition reboot_bitaxe :: "env \<Rightarrow> world \<Rightarrow> bool \<times> world" where
  "reboot_bitaxe e w =
     (let w1 = w \<lparr> requests := Suc (requests w) \<rparr>
      in if restart_reply e (requests w) then (True, say RebootedOk w1)
         else (False, say ErrorRebooting w1))"

section \<open>Logging and display\<close>

text \<open>
  \<^verbatim>\<open>log_data\<close>: without the aggregates (\<open>None\<close>) it appends a row of the current
  \<^verbatim>\<open>system_info\<close> to the readings file, with them it appends the run summary to the
  summaries file. It returns the name of the file it wrote.
\<close>

definition log_data ::
  "int \<Rightarrow> int \<Rightarrow> nat \<Rightarrow> log_note \<Rightarrow> stats option \<Rightarrow> world \<Rightarrow> csv \<times> world" where
  "log_data frequency core_voltage run_number note_text aggregates w =
     (case aggregates of
        None \<Rightarrow>
          (ReadingsFile,
           w \<lparr> readings_file := readings_file w @
                 [\<lparr> rd_time = clock w, rd_info = system_info w, rd_note = note_text \<rparr>] \<rparr>)
      | Some st \<Rightarrow>
          (let avg_hashrate =
                 (if run_count_values st HashRate > 0
                  then run_sum_values st HashRate / real (run_count_values st HashRate) else 0)
           in (SummariesFile,
               w \<lparr> summaries_file := summaries_file w @
                     [RunSummary run_number frequency core_voltage avg_hashrate st] \<rparr>)))"

definition display_status :: "nat \<Rightarrow> nat \<Rightarrow> int \<Rightarrow> world \<Rightarrow> world" where
  "display_status reading_count run_number total_tests w =
     say (StatusDisplay run_number total_tests reading_count) w"

definition display_summary :: "world \<Rightarrow> world" where
  "display_summary w =
     (say SummaryDisplay w)
       \<lparr> summaries_file := summaries_file w @
           [GlobalSummary (global_min_values w) (global_max_values w)
              (if best_hashrate w > 0
               then Some (best_hashrate w, best_frequency w, best_voltage w) else None)] \<rparr>"

section \<open>The run controller\<close>

text \<open>
  The local variables of \<^verbatim>\<open>run_test\<close>; \<open>run_frequency\<close> and \<open>run_core_voltage\<close> are its
  parameters \<^verbatim>\<open>frequency\<close> and \<^verbatim>\<open>core_voltage\<close>, which the loop reassigns after an
  adjustment.
\<close>

record run =
  run_frequency :: int
  run_core_voltage :: int
  start_time :: real
  last_log_time :: real
  reading_count :: nat
  run_stats :: stats
  last_hashrate :: "real option"
  identical_hashrate_count :: int
  readings_since_adjustment :: nat

text \<open>
  The update of the best result, run where the source has checked that the count of
  hash-rate readings is positive.
\<close>

definition update_best :: "int \<Rightarrow> int \<Rightarrow> stats \<Rightarrow> world \<Rightarrow> world" where
  "update_best frequency core_voltage st w =
     (let avg_hashrate = run_sum_values st HashRate / real (run_count_values st HashRate)
      in if avg_hashrate > best_hashrate w
         then w \<lparr> best_hashrate := avg_hashrate, best_frequency := Some frequency,
                  best_voltage := Some core_voltage \<rparr>
         else w)"

text \<open>
  "Set best settings or revert to initial", written out in \<^verbatim>\<open>run_test\<close> and again in
  \<^verbatim>\<open>main\<close>: \<open>allowed\<close> is \<^verbatim>\<open>not monitor_mode\<close> in the first and True in the second, and
  \<open>no_best\<close> is the line printed when there is no best result.
\<close>

definition apply_best_or_initial :: "env \<Rightarrow> bool \<Rightarrow> message \<Rightarrow> world \<Rightarrow> world" where
  "apply_best_or_initial e allowed no_best w =
     (case (allowed, best_frequency w, best_voltage w) of
        (True, Some bf, Some bv) \<Rightarrow>
          (case set_system_settings e bf bv (say (SettingBest bf bv) w) of
             (True, w1) \<Rightarrow> w1
           | (False, w1) \<Rightarrow>
               snd (set_system_settings e (initial_frequency w1) (initial_core_voltage w1)
                      (say FailedBest w1)))
      | _ \<Rightarrow>
          snd (set_system_settings e (initial_frequency w) (initial_core_voltage w)
                 (say no_best w)))"

text \<open>
  The critical branch of the loop for a run without a table: set the flag, reduce by
  10 MHz and 10 mV down to the minima, log, update the best result, write the summary,
  restore, and return the file name.
\<close>

definition critical_stop :: "env \<Rightarrow> bool \<Rightarrow> nat \<Rightarrow> info \<Rightarrow> run \<Rightarrow> world \<Rightarrow> csv \<times> world" where
  "critical_stop e monitor_mode run_number si r w =
     (let frequency = run_frequency r;
          core_voltage = run_core_voltage r;
          w1 = w \<lparr> critical_temp_reached := True \<rparr>;
          new_frequency = max (min_frequency CONFIG) (frequency - 10);
          new_core_voltage = max (min_core_voltage CONFIG) (core_voltage - 10);
          w2 = say (CriticalReducing (critical_reason si) new_frequency new_core_voltage) w1;
          w3 = snd (set_system_settings e new_frequency new_core_voltage w2);
          logged = log_data frequency core_voltage run_number
                     (ReducedNote (critical_reason si)) None w3;
          summarised =
            (if \<not> monitor_mode then
               log_data frequency core_voltage run_number NoNote (Some (run_stats r))
                 (if run_count_values (run_stats r) HashRate > 0
                  then update_best frequency core_voltage (run_stats r) (snd logged)
                  else snd logged)
             else logged)
      in (fst summarised,
          apply_best_or_initial e (\<not> monitor_mode) NoValidRunsOrMonitor (snd summarised)))"

text \<open>The count of identical hash-rate readings and the reboot it triggers.\<close>

definition reboot_check :: "env \<Rightarrow> nat \<Rightarrow> int \<Rightarrow> info \<Rightarrow> run \<Rightarrow> world \<Rightarrow> run \<times> world" where
  "reboot_check e run_number reboot_threshold si r w =
     (let current_hashrate = si HashRate in
      if Some current_hashrate = last_hashrate r then
        (let r1 = r \<lparr> identical_hashrate_count := identical_hashrate_count r + 1 \<rparr> in
         if identical_hashrate_count r1 \<ge> reboot_threshold then
           (let w1 = say (DetectedIdentical (identical_hashrate_count r1) current_hashrate) w;
                w2 = snd (log_data (run_frequency r1) (run_core_voltage r1) run_number
                            (RebootNote (identical_hashrate_count r1)) None w1)
            in case reboot_bitaxe e w2 of
                 (True, w3) \<Rightarrow>
                   (r1 \<lparr> identical_hashrate_count := 0, last_hashrate := None \<rparr>, sleep 30 w3)
               | (False, w3) \<Rightarrow> (r1, say RebootFailed w3))
         else (r1, w))
      else (r \<lparr> identical_hashrate_count := 1, last_hashrate := Some current_hashrate \<rparr>, w))"

text \<open>
  The table-driven adjustment of the loop: consult the selector and apply a changed
  operating point. The first component is \<^verbatim>\<open>settings_changed\<close>.
\<close>

definition adjust_step :: "env \<Rightarrow> nat \<Rightarrow> info \<Rightarrow> run \<Rightarrow> world \<Rightarrow> bool \<times> run \<times> world" where
  "adjust_step e run_number si r w =
     (case adjust_settings_based_on_values (value_pairs w) si (clock w) (last_fallback w)
             (run_frequency r) (run_core_voltage r) of
        ((new_frequency, new_core_voltage), fb, lines) \<Rightarrow>
          (let w1 = w \<lparr> last_fallback := fb, console := console w @ lines \<rparr> in
           if new_frequency \<noteq> run_frequency r \<or> new_core_voltage \<noteq> run_core_voltage r then
             (case set_system_settings e new_frequency new_core_voltage w1 of
                (True, w2) \<Rightarrow>
                  (True,
                   r \<lparr> run_frequency := new_frequency, run_core_voltage := new_core_voltage,
                       readings_since_adjustment := 0 \<rparr>,
                   snd (log_data new_frequency new_core_voltage run_number
                          (AdjustedNote new_frequency new_core_voltage) None w2))
              | (False, w2) \<Rightarrow> (False, r, say (FailedToAdjust new_frequency new_core_voltage) w2))
           else (False, r, w1)))"

text \<open>
  The end of an iteration: count the reading, log when the interval has passed, display
  the status unless the settings changed, sleep.
\<close>

definition finish_iteration :: "nat \<Rightarrow> int \<Rightarrow> bool \<Rightarrow> run \<Rightarrow> world \<Rightarrow> run \<times> world" where
  "finish_iteration run_number total_tests settings_changed r w =
     (let r1 = r \<lparr> readings_since_adjustment := readings_since_adjustment r + 1 \<rparr>;
          logged =
            (if clock w - last_log_time r1 \<ge> log_interval CONFIG
             then (r1 \<lparr> last_log_time := clock w \<rparr>,
                   snd (log_data (run_frequency r1) (run_core_voltage r1) run_number NoNote None w))
             else (r1, w));
          w2 = (if \<not> settings_changed
                then display_status (reading_count r1) run_number total_tests (snd logged)
                else snd logged)
      in (fst logged, sleep (status_interval CONFIG) w2))"

text \<open>
  After a successful fetch: the aggregates that \<^verbatim>\<open>fetch_system_info\<close> updated in place
  are the run's, the reading is counted, and the reboot detection runs when a threshold
  is set.
\<close>

definition count_reading ::
  "env \<Rightarrow> nat \<Rightarrow> int option \<Rightarrow> info \<Rightarrow> stats \<Rightarrow> run \<Rightarrow> world \<Rightarrow> run \<times> world" where
  "count_reading e run_number reboot_threshold si st r w =
     (let r1 = r \<lparr> run_stats := st, reading_count := reading_count r + 1 \<rparr> in
      case reboot_threshold of
        None \<Rightarrow> (r1, w)
      | Some threshold \<Rightarrow> reboot_check e run_number threshold si r1 w)"

text \<open>
  The rest of the iteration: the table-driven adjustment, or the critical check of a
  run without a table, then the end of the iteration. \<open>values_file\<close> is the truth value
  of the parameter of that name. The first component is \<open>Some\<close> file name where the
  source returns from \<^verbatim>\<open>run_test\<close> inside the loop, \<open>None\<close> where the loop goes on.
\<close>

definition react ::
  "env \<Rightarrow> nat \<Rightarrow> int \<Rightarrow> bool \<Rightarrow> bool \<Rightarrow> info \<Rightarrow> run \<Rightarrow> world \<Rightarrow> csv option \<times> run \<times> world" where
  "react e run_number total_tests monitor_mode values_file si r w =
     (if monitor_mode \<and> values_file \<and>
         readings_since_adjustment r \<ge> readings_to_advance CONFIG then
        (case adjust_step e run_number si r w of
           (settings_changed, r3, w3) \<Rightarrow>
             (None, finish_iteration run_number total_tests settings_changed r3 w3))
      else if \<not> values_file \<and> critical_hit si then
        (case critical_stop e monitor_mode run_number si r w of
           (csv_filename, w3) \<Rightarrow> (Some csv_filename, r, w3))
      else (None, finish_iteration run_number total_tests False r w))"

text \<open>
  One iteration of the \<^verbatim>\<open>while\<close> loop: a failed fetch sleeps 10 seconds and goes on
  without counting a reading.
\<close>

definition poll_step ::
  "env \<Rightarrow> nat \<Rightarrow> int option \<Rightarrow> int \<Rightarrow> bool \<Rightarrow> bool \<Rightarrow> run \<Rightarrow> world
     \<Rightarrow> (py_error \<times> world) + (csv option \<times> run \<times> world)" where
  "poll_step e run_number reboot_threshold total_tests monitor_mode values_file r w =
     (case fetch_system_info e (run_stats r) w of
        Inl crash \<Rightarrow> Inl crash
      | Inr (None, st, w1) \<Rightarrow> Inr (None, r, sleep 10 (say Retrying w1))
      | Inr (Some si, st, w1) \<Rightarrow>
          (case count_reading e run_number reboot_threshold si st r w1 of
             (r2, w2) \<Rightarrow> Inr (react e run_number total_tests monitor_mode values_file si r2 w2)))"

text \<open>
  The \<^verbatim>\<open>while\<close> loop. In monitor mode it need not end, so it runs on fuel: \<open>None\<close> means
  that the fuel ran out with the loop condition still true.
\<close>

definition polling :: "env \<Rightarrow> bool \<Rightarrow> run \<Rightarrow> world \<Rightarrow> bool" where
  "polling e monitor_mode r w \<longleftrightarrow>
     (monitor_mode \<or> clock w - start_time r < run_duration CONFIG) \<and> \<not> is_interrupted e w"

fun poll ::
  "nat \<Rightarrow> env \<Rightarrow> nat \<Rightarrow> int option \<Rightarrow> int \<Rightarrow> bool \<Rightarrow> bool \<Rightarrow> run \<Rightarrow> world
     \<Rightarrow> ((py_error \<times> world) + (csv option \<times> run \<times> world)) option" where
  "poll 0 e run_number reboot_threshold total_tests monitor_mode values_file r w =
     (if polling e monitor_mode r w then None else Some (Inr (None, r, w)))"
| "poll (Suc fuel) e run_number reboot_threshold total_tests monitor_mode values_file r w =
     (if polling e monitor_mode r w then
        (case poll_step e run_number reboot_threshold total_tests monitor_mode values_file r w of
           Inl crash \<Rightarrow> Some (Inl crash)
         | Inr (Some csv_filename, r1, w1) \<Rightarrow> Some (Inr (Some csv_filename, r1, w1))
         | Inr (None, r1, w1) \<Rightarrow>
             poll fuel e run_number reboot_threshold total_tests monitor_mode values_file r1 w1)
      else Some (Inr (None, r, w)))"

text \<open>\<^verbatim>\<open>run_test\<close>: the value returned is a file name or None.\<close>

definition run_test ::
  "nat \<Rightarrow> env \<Rightarrow> int \<Rightarrow> int \<Rightarrow> nat \<Rightarrow> int option \<Rightarrow> int \<Rightarrow> bool \<Rightarrow> bool \<Rightarrow> world
     \<Rightarrow> ((py_error \<times> world) + (csv option \<times> world)) option" where
  "run_test fuel e frequency core_voltage run_number reboot_threshold total_tests monitor_mode
     values_file w =
     (case set_system_settings e frequency core_voltage w of
        (False, w1) \<Rightarrow> Some (Inr (None, say (SkippingRun run_number frequency core_voltage) w1))
      | (True, w1) \<Rightarrow>
          (let w2 = say (RunStarted run_number frequency core_voltage) w1;
               r = \<lparr> run_frequency = frequency, run_core_voltage = core_voltage,
                     start_time = clock w2, last_log_time = clock w2, reading_count = 0,
                     run_stats = new_stats, last_hashrate = None,
                     identical_hashrate_count = 0, readings_since_adjustment = 0 \<rparr>
           in case poll fuel e run_number reboot_threshold total_tests monitor_mode values_file r w2 of
                None \<Rightarrow> None
              | Some (Inl crash) \<Rightarrow> Some (Inl crash)
              | Some (Inr (Some csv_filename, r1, w3)) \<Rightarrow> Some (Inr (Some csv_filename, w3))
              | Some (Inr (None, r1, w3)) \<Rightarrow>
                  (if \<not> monitor_mode \<and> run_count_values (run_stats r1) HashRate > 0 then
                     (case log_data (run_frequency r1) (run_core_voltage r1) run_number NoNote
                             (Some (run_stats r1))
                             (update_best (run_frequency r1) (run_core_voltage r1)
                                (run_stats r1) w3) of
                        (csv_filename, w4) \<Rightarrow> Some (Inr (Some csv_filename, w4)))
                   else Some (Inr (Some ReadingsFile, w3)))))"

section \<open>The main program\<close>

text \<open>
  The parsed command line. \<open>ip_matches\<close> is the result of \<^verbatim>\<open>re.match\<close> in
  \<^verbatim>\<open>validate_ip\<close>; a string is true in a condition when it is present and not empty.
\<close>

record cli =
  arg_voltage :: int
  arg_frequency :: int
  ip_matches :: bool
  arg_range :: int
  arg_step :: int
  arg_reboot :: "int option"
  arg_monitor :: bool
  arg_values :: "string option"

definition truthy :: "string option \<Rightarrow> bool" where
  "truthy s \<longleftrightarrow> s \<noteq> None \<and> s \<noteq> Some []"

text \<open>
  \<^verbatim>\<open>parse_arguments\<close> after argparse has read the flags: the checks in the order of the
  source (\<^verbatim>\<open>parser.error\<close> is ParserError), the table load, the address check. The
  result is the table loaded and the line printed.
\<close>

definition parse_arguments ::
  "(string \<Rightarrow> int option) \<Rightarrow> env \<Rightarrow> cli \<Rightarrow> py_error + ((int \<times> int) list \<times> message list)" where
  "parse_arguments to_int e args =
     (if arg_voltage args < min_core_voltage CONFIG then Inl ParserError
      else if arg_frequency args < min_frequency CONFIG then Inl ParserError
      else if arg_range args < 0 then Inl ParserError
      else if arg_step args \<le> 0 then Inl ParserError
      else if (case arg_reboot args of None \<Rightarrow> False | Some n \<Rightarrow> n \<le> 0) then Inl ParserError
      else if truthy (arg_values args) \<and> \<not> arg_monitor args then Inl ParserError
      else
        (case (case arg_values args of
                 None \<Rightarrow> Inr ([], [])
               | Some path \<Rightarrow>
                   if path = [] then Inr ([], [])
                   else (case read_values_csv to_int (files e path) of
                           Inl err \<Rightarrow> Inl err
                         | Inr pairs \<Rightarrow> Inr (pairs, [LoadedPairs (length pairs)]))) of
           Inl err \<Rightarrow> Inl err
         | Inr loaded \<Rightarrow> if ip_matches args then Inr loaded else Inl ValueError))"

text \<open>
  \<^verbatim>\<open>range(start, stop, step)\<close> for a positive step, the only kind \<^verbatim>\<open>main\<close> passes.
\<close>

function py_range :: "int \<Rightarrow> int \<Rightarrow> int \<Rightarrow> int list" where
  "py_range start stop step =
     (if 0 < step \<and> start < stop then start # py_range (start + step) stop step else [])"
  by pat_completeness auto
termination
  by (relation "measure (\<lambda>(start, stop, step). nat (stop - start))") auto

text \<open>
  The \<^verbatim>\<open>for\<close> loop of \<^verbatim>\<open>main\<close> over the numbered frequencies, left by \<^verbatim>\<open>break\<close> after
  a run that ends with the interrupt or the critical flag set.
\<close>

fun sweep ::
  "nat \<Rightarrow> env \<Rightarrow> int \<Rightarrow> int option \<Rightarrow> int \<Rightarrow> (nat \<times> int) list \<Rightarrow> world
     \<Rightarrow> ((py_error \<times> world) + world) option" where
  "sweep fuel e core_voltage reboot_threshold total_tests [] w = Some (Inr w)"
| "sweep fuel e core_voltage reboot_threshold total_tests ((run_number, freq) # rest) w =
     (case run_test fuel e freq core_voltage run_number reboot_threshold total_tests False False w of
        None \<Rightarrow> None
      | Some (Inl crash) \<Rightarrow> Some (Inl crash)
      | Some (Inr (csv_file, w1)) \<Rightarrow>
          (if is_interrupted e w1 \<or> critical_temp_reached w1 then Some (Inr w1)
           else sweep fuel e core_voltage reboot_threshold total_tests rest w1))"

text \<open>
  The end of \<^verbatim>\<open>main\<close> for a sweep: restore the best settings unless the critical flag
  is set, then display the summary.
\<close>

definition finish_sweep :: "env \<Rightarrow> world \<Rightarrow> world" where
  "finish_sweep e w =
     display_summary
       (if \<not> critical_temp_reached w then apply_best_or_initial e True NoValidRuns w else w)"

definition start_world :: "cli \<Rightarrow> (int \<times> int) list \<Rightarrow> message list \<Rightarrow> world" where
  "start_world args pairs lines =
     \<lparr> clock = 0, requests = 0, sent = [], console = lines, readings_file = [],
       summaries_file = [], system_info = (\<lambda>key. None),
       global_min_values = fst new_global, global_max_values = snd new_global,
       critical_temp_reached = False,
       initial_frequency = arg_frequency args, initial_core_voltage = arg_voltage args,
       best_hashrate = 0, best_frequency = None, best_voltage = None,
       value_pairs = pairs,
       last_fallback = \<lparr> last_fallback_time = None, last_fallback_voltage = None \<rparr> \<rparr>"

text \<open>
  How the process ends: an exception out of \<^verbatim>\<open>parse_arguments\<close>, before anything is
  sent to the device; an exception later, with the state it leaves; or an exit code.
\<close>

datatype outcome = ConfigError py_error | Crashed py_error world | Exited int world

definition main :: "nat \<Rightarrow> (string \<Rightarrow> int option) \<Rightarrow> env \<Rightarrow> cli \<Rightarrow> outcome option" where
  "main fuel to_int e args =
     (case parse_arguments to_int e args of
        Inl err \<Rightarrow> Some (ConfigError err)
      | Inr (pairs, lines) \<Rightarrow>
          (let w0 = start_world args pairs lines;
               monitor_mode = arg_monitor args;
               freq_range = (if monitor_mode then 0 else arg_range args);
               freq_step = (if monitor_mode then 1 else arg_step args);
               total_tests =
                 (if monitor_mode then 1
                  else ((initial_frequency w0 + freq_range) - (initial_frequency w0 - freq_range))
                         div freq_step + 1);
               start_frequency =
                 (if monitor_mode then initial_frequency w0 else initial_frequency w0 - freq_range)
           in case set_system_settings e start_frequency (initial_core_voltage w0)
                     (say (RequestedInitial start_frequency (initial_core_voltage w0)) w0) of
                (False, w1) \<Rightarrow> Some (Exited 1 (say FailedInitial w1))
              | (True, w1) \<Rightarrow>
                  (let w2 = say (InitialApplied start_frequency (initial_core_voltage w0)) w1 in
                   if monitor_mode then
                     (let w3 = say (MonitoringAt (initial_frequency w0)) w2;
                          w4 = (if truthy (arg_values args) then say UsingValues w3 else w3)
                      in case run_test fuel e (initial_frequency w0) (initial_core_voltage w0) 1
                                (arg_reboot args) total_tests True (truthy (arg_values args)) w4 of
                           None \<Rightarrow> None
                         | Some (Inl (err, w5)) \<Rightarrow> Some (Crashed err w5)
                         | Some (Inr (csv_file, w5)) \<Rightarrow> Some (Exited 0 (say MonitorTerminated w5)))
                   else
                     (let stop = initial_frequency w0 + freq_range + 1;
                          planned = py_range start_frequency stop freq_step;
                          w3 = say (TestingFromTo start_frequency (initial_frequency w0 + freq_range)
                                      freq_step) w2
                      in case sweep fuel e (initial_core_voltage w0) (arg_reboot args) total_tests
                                (zip [1 ..< Suc (length planned)] planned) w3 of
                           None \<Rightarrow> None
                         | Some (Inl (err, w4)) \<Rightarrow> Some (Crashed err w4)
                         | Some (Inr w4) \<Rightarrow> Some (Exited 0 (finish_sweep e w4))))))"

section \<open>Reading the summaries file\<close>


section \<open>A device and a state for the examples\<close>

text \<open>
  A device that accepts every request and reports the settings last written, with the
  frequency off by \<open>drift\<close>, at 500 GH/s, 15 W and 55 degrees; and the state of the
  process before its first request, started with 1200 mV, 500 MHz, range 10 and step 5.
\<close>

definition echo_device :: "real \<Rightarrow> env" where
  "echo_device drift =
     \<lparr> patch_reply = (\<lambda>n. True),
       info_reply = (\<lambda>n history. if history = [] then None
          else Some [''frequency'' \<mapsto> real_of_int (fst (last history)) + drift,
                     ''coreVoltage'' \<mapsto> real_of_int (snd (last history)),
                     ''hashRate'' \<mapsto> 500, ''power'' \<mapsto> 15, ''temp'' \<mapsto> 55]),
       restart_reply = (\<lambda>n. True), sigint_at = None, files = (\<lambda>path. None) \<rparr>"

definition sweep_args :: cli where
  "sweep_args = \<lparr> arg_voltage = 1200, arg_frequency = 500, ip_matches = True,
     arg_range = 10, arg_step = 5, arg_reboot = None, arg_monitor = False, arg_values = None \<rparr>"

definition idle_world :: world where
  "idle_world = start_world sweep_args [] []"

text \<open>The same device at a chip temperature of 70 degrees.\<close>

definition hot_device :: env where
  "hot_device = (echo_device 0)
     \<lparr> info_reply := (\<lambda>n history. if history = [] then None
          else Some [''frequency'' \<mapsto> real_of_int (fst (last history)),
                     ''coreVoltage'' \<mapsto> real_of_int (snd (last history)),
                     ''hashRate'' \<mapsto> 500, ''power'' \<mapsto> 15, ''temp'' \<mapsto> 70]) \<rparr>"

section \<open>Notions used to state the end-to-end properties\<close>


text \<open>
  Two states agree on the critical flag, the initial settings, the best result and the
  summaries file.
\<close>

definition same_books :: "world \<Rightarrow> world \<Rightarrow> bool" where
  "same_books w w' \<longleftrightarrow>
     critical_temp_reached w' = critical_temp_reached w \<and>
     initial_frequency w' = initial_frequency w \<and>
     initial_core_voltage w' = initial_core_voltage w \<and>
     best_hashrate w' = best_hashrate w \<and>
     best_frequency w' = best_frequency w \<and>
     best_voltage w' = best_voltage w \<and>
     summaries_file w' = summaries_file w"


section \<open>Properties of the table-driven selector\<close>

subsection \<open>Index derivation\<close>

lemma index_of_None: "index_of xs x = None \<longleftrightarrow> x \<notin> set xs"
  by (induction xs) (auto split: option.splits)

lemma index_of_Some:
  "index_of xs x = Some i \<Longrightarrow> i < length xs \<and> xs ! i = x \<and> (\<forall>j<i. xs ! j \<noteq> x)"
proof (induction xs arbitrary: i)
  case Nil
  then show ?case by simp
next
  case (Cons y ys)
  show ?case
  proof (cases "y = x")
    case True
    with Cons.prems show ?thesis by simp
  next
    case False
    with Cons.prems obtain k where k: "index_of ys x = Some k" "i = Suc k"
      by (auto split: option.splits)
    from Cons.IH [OF k(1)] False k(2) show ?thesis
      by (auto simp: nth_Cons split: nat.splits)
  qed
qed

lemma closest_lower_None:
  "closest_lower k xs cv = None \<longleftrightarrow> (\<forall>p \<in> set xs. fst p < cv)"
  by (induction k xs cv rule: closest_lower.induct) auto

lemma closest_lower_Some:
  "closest_lower k xs cv = Some r \<Longrightarrow>
     \<exists>i<length xs. cv \<le> fst (xs ! i) \<and> (\<forall>j<i. fst (xs ! j) < cv) \<and> r = k + i - 1"
proof (induction k xs cv arbitrary: r rule: closest_lower.induct)
  case (1 i cv)
  then show ?case by simp
next
  case (2 k volt f rest cv)
  show ?case
  proof (cases "cv \<le> volt")
    case True
    with "2.prems" have "r = k - 1" by auto
    with True show ?thesis by (intro exI [of _ 0]) simp
  next
    case False
    with "2.prems" have "closest_lower (Suc k) rest cv = Some r" by simp
    from "2.IH" [OF False this] obtain i where i: "i < length rest" "cv \<le> fst (rest ! i)"
      "\<forall>j<i. fst (rest ! j) < cv" "r = Suc k + i - 1" by blast
    with False show ?thesis
      by (intro exI [of _ "Suc i"]) (auto simp: nth_Cons split: nat.splits)
  qed
qed

lemma current_index_of_less:
  "table \<noteq> [] \<Longrightarrow> current_index_of table f v < length table"
  unfolding current_index_of_def
  by (auto split: option.splits dest!: index_of_Some closest_lower_Some)


text \<open>
  Counterexample to claim C3 as stated. With the table (1000, 400), (1100, 500),
  (1200, 600) and the current pair 1100 mV at 510 MHz, the pair is not in the table; the
  entry at index 1 has a voltage equal to the current one, yet the loop breaks at that
  entry and steps back to index 0. The derived index is not the nearest entry of voltage
  at most the current voltage.
\<close>

theorem current_index_not_nearest_le:
  "\<not> spec_derived_index [(1000, 400), (1100, 500), (1200, 600)] 510 1100
       (current_index_of [(1000, 400), (1100, 500), (1200, 600)] 510 1100)"
  by (simp add: spec_derived_index_def current_index_of_def)

lemma sorted_fst_nth:
  "sorted (map fst xs) \<Longrightarrow> i \<le> j \<Longrightarrow> j < length xs \<Longrightarrow> fst (xs ! i) \<le> fst (xs ! j)"
  using sorted_nth_mono [of "map fst xs" i j] by simp

text \<open>
  Claim C3, amended. For every non-empty table sorted ascending by voltage and every
  current (voltage, frequency) pair, the derived index is a position of the table. It is
  the first position of the pair when the pair is in the table. Otherwise it is the last
  position when every table voltage is below the current voltage, position 0 when no
  table voltage is below it, and else the last entry whose voltage is strictly below the
  current voltage, which is the nearest such entry.
\<close>

theorem current_index_derivation:
  assumes ne: "table \<noteq> []" and srt: "sorted (map fst table)"
  shows "let i = current_index_of table f v;
             n = length table;
             lower = (\<lambda>j. fst (table ! j) < v)
         in i < n \<and>
            (if (v, f) \<in> set table
             then table ! i = (v, f) \<and>
                  (\<forall>j<i. table ! j \<noteq> (v, f))
             else if \<forall>j<n. lower j then i = n - 1
             else if \<forall>j<n. \<not> lower j then i = 0
             else lower i \<and> (\<forall>j<n. lower j \<longrightarrow> j \<le> i \<and> fst (table ! j) \<le> fst (table ! i)))"
proof -
  define i where "i = current_index_of table f v"
  define n where "n = length table"
  have iless: "i < n"
    unfolding i_def n_def using ne by (rule current_index_of_less)
  have exact: "table ! i = (v, f) \<and>
      (\<forall>j<i. table ! j \<noteq> (v, f))"
    if "(v, f) \<in> set table"
  proof -
    from that obtain k where k: "index_of table (v, f) = Some k"
      using index_of_None [of table "(v, f)"] by (cases "index_of table (v, f)") auto
    then have "i = k" by (simp add: i_def current_index_of_def)
    with index_of_Some [OF k] show ?thesis by simp
  qed
  have absent: "(if \<forall>j<n. fst (table ! j) < v then i = n - 1
        else if \<forall>j<n. \<not> fst (table ! j) < v then i = 0
        else fst (table ! i) < v \<and>
          (\<forall>j<n. fst (table ! j) < v \<longrightarrow>
             j \<le> i \<and> fst (table ! j) \<le> fst (table ! i)))"
    if notin: "(v, f) \<notin> set table"
  proof -
    from notin have none: "index_of table (v, f) = None"
      by (simp add: index_of_None)
    show ?thesis
    proof (cases "closest_lower 0 table v")
      case None
      then have all: "\<forall>j<n. fst (table ! j) < v"
        by (simp add: closest_lower_None n_def)
      from None none have "i = n - 1"
        by (simp add: i_def n_def current_index_of_def)
      with all show ?thesis by simp
    next
      case (Some r)
      from closest_lower_Some [OF Some] obtain k where k: "k < n"
        "v \<le> fst (table ! k)"
        "\<forall>j<k. fst (table ! j) < v" "r = k - 1"
        by (auto simp: n_def)
      from Some none have ir: "i = r"
        by (simp add: i_def current_index_of_def)
      have notall: "\<not> (\<forall>j<n. fst (table ! j) < v)"
        using k(1,2) by auto
      have above: "v \<le> fst (table ! j)" if "k \<le> j" "j < n" for j
        using sorted_fst_nth [OF srt that(1)] that(2) k(2) by (simp add: n_def)
      show ?thesis
      proof (cases k)
        case 0
        then have allnot: "\<forall>j<n. \<not> fst (table ! j) < v"
          using above by fastforce
        have "i = 0" using ir k(4) 0 by simp
        then show ?thesis
          by (simp only: if_not_P [OF notall] if_P [OF allnot])
      next
        case (Suc k')
        then have i: "i = k'" using ir k(4) by simp
        have low: "fst (table ! i) < v"
          using k(3) i Suc by simp
        have "j \<le> i \<and> fst (table ! j) \<le> fst (table ! i)"
          if "j < n" "fst (table ! j) < v" for j
        proof -
          have "j < k" using above [of j] that by (meson not_le)
          then have "j \<le> i" using i Suc by simp
          moreover from this have "fst (table ! j) \<le> fst (table ! i)"
            using sorted_fst_nth [OF srt, of j i] iless by (simp add: n_def)
          ultimately show ?thesis by simp
        qed
        then have nearest: "\<forall>j<n. fst (table ! j) < v \<longrightarrow>
            j \<le> i \<and> fst (table ! j) \<le> fst (table ! i)"
          by blast
        have notnone: "\<not> (\<forall>j<n. \<not> fst (table ! j) < v)"
          using low iless by blast
        from low nearest show ?thesis
          by (simp only: if_not_P [OF notall] if_not_P [OF notnone] simp_thms)
      qed
    qed
  qed
  from iless exact absent show ?thesis
    unfolding Let_def i_def [symmetric] n_def [symmetric] by presburger
qed

text \<open>The amended statement of C3 at a three-entry table.\<close>

theorem current_index_derivation_witness:
  "[(1000, 400), (1100, 500), (1200::int, 600::int)] \<noteq> [] \<and>
   sorted (map fst [(1000, 400), (1100, 500), (1200::int, 600::int)]) \<and>
   current_index_of [(1000, 400), (1100, 500), (1200, 600)] 500 1100 = 1 \<and>
   current_index_of [(1000, 400), (1100, 500), (1200, 600)] 510 1100 = 0 \<and>
   current_index_of [(1000, 400), (1100, 500), (1200, 600)] 510 1150 = 1 \<and>
   current_index_of [(1000, 400), (1100, 500), (1200, 600)] 510 900 = 0 \<and>
   current_index_of [(1000, 400), (1100, 500), (1200, 600)] 700 1300 = 2"
  using current_index_derivation [of "[(1000, 400), (1100, 500), (1200, 600)]" 500 1100]
  by (simp add: current_index_of_def)


subsection \<open>Critical fallback\<close>

text \<open>
  Claim C2. For every non-empty table and every sample with a critical hit, the selector
  returns the operating point at index - 1 when the current index is above 0, records the
  current time and the voltage before the drop as the fallback, and prints the drop;
  at index 0 it prints that it is already at the lowest settings and returns the
  operating point and the fallback record unchanged. At index 2 of a four-entry table
  the result is the entry at index 1.
\<close>

theorem critical_fallback:
  assumes ne: "table \<noteq> []" and crit: "critical_hit si"
  shows "let i = current_index_of table f v;
             below = table ! (i - 1);
             result = adjust_settings_based_on_values table si now fb f v
         in (if i > 0
             then result = ((snd below, fst below),
                    \<lparr> last_fallback_time = Some now, last_fallback_voltage = Some v \<rparr>,
                    [CriticalDropping (critical_reason si) (snd below) (fst below)])
             else result = ((f, v), fb, [AlreadyAtLowest])) \<and>
            (length table = 4 \<and> i = 2 \<longrightarrow>
               fst result = (snd (table ! 1), fst (table ! 1)))"
  using ne crit
  by (simp add: adjust_settings_based_on_values_def Let_def split: prod.splits)

text \<open>Claim C2 at index 2 and at index 0 of a four-entry table, chip at 70 degrees.\<close>

theorem critical_fallback_witness:
  "[(1000, 400), (1100, 500), (1200, 600), (1300::int, 700::int)] \<noteq> [] \<and>
   critical_hit ((\<lambda>_. 0)(Temp := 70)) \<and>
   adjust_settings_based_on_values [(1000, 400), (1100, 500), (1200, 600), (1300, 700)]
       ((\<lambda>_. 0)(Temp := 70)) 50 \<lparr> last_fallback_time = None, last_fallback_voltage = None \<rparr>
       600 1200 =
     ((500, 1100), \<lparr> last_fallback_time = Some 50, last_fallback_voltage = Some 1200 \<rparr>,
      [CriticalDropping CriticalTemperature 500 1100]) \<and>
   adjust_settings_based_on_values [(1000, 400), (1100, 500), (1200, 600), (1300, 700)]
       ((\<lambda>_. 0)(Temp := 70)) 50 \<lparr> last_fallback_time = None, last_fallback_voltage = None \<rparr>
       400 1000 =
     ((400, 1000), \<lparr> last_fallback_time = None, last_fallback_voltage = None \<rparr>,
      [AlreadyAtLowest])"
proof -
  have ne: "[(1000, 400), (1100, 500), (1200, 600), (1300::int, 700::int)] \<noteq> []" by simp
  have crit: "critical_hit ((\<lambda>_. 0)(Temp := 70))"
    by (simp add: critical_hit_def CONFIG_def)
  show ?thesis
    using ne crit
      critical_fallback [OF ne crit, of 600 1200 50
        "\<lparr> last_fallback_time = None, last_fallback_voltage = None \<rparr>"]
      critical_fallback [OF ne crit, of 400 1000 50
        "\<lparr> last_fallback_time = None, last_fallback_voltage = None \<rparr>"]
    by (simp add: current_index_of_def Let_def critical_reason_def CONFIG_def)
qed

subsection \<open>Cooldown\<close>

text \<open>
  Claim C1. With a fallback recorded at voltage \<open>V\<close> at time \<open>T\<close>: while less than
  \<open>advance_delay\<close> has elapsed, the selector returns the operating point unchanged, or
  (on a critical hit only) the entry below, or the next entry whose voltage is below
  \<open>V\<close>; an "Increasing" line is printed only for a voltage below \<open>V\<close>. Whatever the
  elapsed time, when no metric is critical, the safe margin holds and the next entry has
  a voltage below \<open>V\<close>, the selector advances to that entry.
\<close>

theorem cooldown_gate:
  assumes t: "last_fallback_time fb = Some T" and v: "last_fallback_voltage fb = Some V"
  shows "let i = current_index_of table f v;
             above = table ! (i + 1);
             result = adjust_settings_based_on_values table si now fb f v
         in (now - T < advance_delay CONFIG \<longrightarrow>
               fst result = (f, v) \<or>
               critical_hit si \<and> 0 < i \<and>
                 fst result = (snd (table ! (i - 1)), fst (table ! (i - 1))) \<or>
               \<not> critical_hit si \<and> fst result = (snd above, fst above) \<and> fst above < V) \<and>
            (now - T < advance_delay CONFIG \<longrightarrow>
               (\<forall>f' v'. Increasing f' v' \<in> set (snd (snd result)) \<longrightarrow> v' < V)) \<and>
            (\<not> critical_hit si \<and> safe_margin si \<and> i < length table - 1 \<and> fst above < V \<longrightarrow>
               result = ((snd above, fst above), fb, [Increasing (snd above) (fst above)]))"
proof -
  define i where "i = current_index_of table f v"
  have blocked: "advance_blocked table i now fb v = Some nv \<Longrightarrow>
      i < length table - 1 \<Longrightarrow> V \<le> fst (table ! (i + 1))" for nv
    using t v by (auto simp: advance_blocked_def Let_def split: if_splits)
  have free: "advance_blocked table i now fb v = None \<Longrightarrow>
      now - T < advance_delay CONFIG \<Longrightarrow> i < length table - 1 \<Longrightarrow>
      fst (table ! (i + 1)) < V"
    using t v by (auto simp: advance_blocked_def Let_def split: if_splits)
  show ?thesis
    unfolding Let_def i_def [symmetric]
    using blocked free
    by (cases "advance_blocked table i now fb v")
      (auto simp: adjust_settings_based_on_values_def Let_def i_def [symmetric]
        split: prod.splits)
qed

text \<open>
  Claim C1 one second before the end of the delay, fallback voltage 1100: the advance
  to 1100 mV is held back, the advance to 1050 mV goes through.
\<close>

theorem cooldown_gate_witness:
  "last_fallback_time \<lparr> last_fallback_time = Some 0, last_fallback_voltage = Some 1100 \<rparr> = Some 0 \<and>
   last_fallback_voltage \<lparr> last_fallback_time = Some 0, last_fallback_voltage = Some 1100 \<rparr> = Some 1100 \<and>
   (7199::real) - 0 < advance_delay CONFIG \<and>
   safe_margin (\<lambda>_. 0) \<and>
   adjust_settings_based_on_values [(1000, 400), (1100, 500), (1200, 600)] (\<lambda>_. 0) 7199
       \<lparr> last_fallback_time = Some 0, last_fallback_voltage = Some 1100 \<rparr> 400 1000 =
     ((400, 1000), \<lparr> last_fallback_time = Some 0, last_fallback_voltage = Some 1100 \<rparr>,
      [AdvanceDelayed 1100]) \<and>
   adjust_settings_based_on_values [(1000, 400), (1050, 450), (1100, 500)] (\<lambda>_. 0) 7199
       \<lparr> last_fallback_time = Some 0, last_fallback_voltage = Some 1100 \<rparr> 400 1000 =
     ((450, 1050), \<lparr> last_fallback_time = Some 0, last_fallback_voltage = Some 1100 \<rparr>,
      [Increasing 450 1050])"
  using cooldown_gate [of "\<lparr> last_fallback_time = Some 0, last_fallback_voltage = Some 1100 \<rparr>"
      0 1100 "[(1000, 400), (1100, 500), (1200, 600)]" 400 1000 "\<lambda>_. 0" 7199]
    cooldown_gate [of "\<lparr> last_fallback_time = Some 0, last_fallback_voltage = Some 1100 \<rparr>"
      0 1100 "[(1000, 400), (1050, 450), (1100, 500)]" 400 1000 "\<lambda>_. 0" 7199]
  by (simp add: current_index_of_def Let_def CONFIG_def safe_margin_def critical_hit_def
      adjust_settings_based_on_values_def advance_blocked_def)

section \<open>Properties of table loading\<close>

lemma rows_to_pairs_no_valid_row:
  "filter (\<lambda>row. 2 \<le> length row) rows = [] \<Longrightarrow> rows_to_pairs to_int rows = Some []"
  by (induction rows) (auto split: if_splits)

lemma rows_to_pairs_length:
  "rows_to_pairs to_int rows = Some pairs \<Longrightarrow>
     length pairs = length (filter (\<lambda>row. 2 \<le> length row) rows)"
  by (induction rows arbitrary: pairs) (auto split: if_splits option.splits)

lemma sorted_sort_key_fst: "sorted (map fst (sort_key fst (pairs :: (int \<times> int) list)))"
  by (induction pairs) (simp_all add: sorted_insort_key)

lemma config_error_before_device:
  assumes "arg_values args = Some path" "path \<noteq> []" "arg_monitor args"
    and "1000 \<le> arg_voltage args" "400 \<le> arg_frequency args" "0 \<le> arg_range args"
    and "0 < arg_step args" "case arg_reboot args of None \<Rightarrow> True | Some k \<Rightarrow> 0 < k"
    and "read_values_csv to_int (files e path) = Inl err"
  shows "main fuel to_int e args = Some (ConfigError err)"
  using assms
  by (simp add: main_def parse_arguments_def truthy_def CONFIG_def split: option.splits)

text \<open>
  Claim C7. Loading a missing file fails with FileNotFoundError; a file whose rows after
  the first line include none with two cells or more fails with ValueError; and every
  table that loading returns is non-empty, sorted ascending by voltage, and holds exactly
  the pairs read from the rows after the first line. The first line of the file is
  always consumed as the header. When the load fails for the table named on an
  otherwise valid command line, the program ends with that error out of
  \<^verbatim>\<open>parse_arguments\<close>, before any request to the device.
\<close>

theorem table_loading:
  "read_values_csv to_int None = Inl FileNotFoundError \<and>
   (\<forall>rows. filter (\<lambda>row. 2 \<le> length row) (tl rows) = [] \<longrightarrow>
      read_values_csv to_int (Some rows) = Inl ValueError) \<and>
   (\<forall>table. read_values_csv to_int file = Inr table \<longrightarrow>
      table \<noteq> [] \<and> sorted (map fst table) \<and>
      (\<exists>rows pairs. file = Some rows \<and> rows_to_pairs to_int (tl rows) = Some pairs \<and>
         set table = set pairs \<and> length table = length pairs)) \<and>
   (\<forall>err. arg_values args = Some path \<and> path \<noteq> [] \<and> arg_monitor args \<and>
      1000 \<le> arg_voltage args \<and> 400 \<le> arg_frequency args \<and> 0 \<le> arg_range args \<and>
      0 < arg_step args \<and> (case arg_reboot args of None \<Rightarrow> True | Some k \<Rightarrow> 0 < k) \<and>
      read_values_csv to_int (files e path) = Inl err \<longrightarrow>
      main fuel to_int e args = Some (ConfigError err))"
proof (intro conjI allI impI)
  show "read_values_csv to_int None = Inl FileNotFoundError"
    by (simp add: read_values_csv_def)
next
  fix rows :: "string list list"
  assume "filter (\<lambda>row. 2 \<le> length row) (tl rows) = []"
  then have "rows_to_pairs to_int (tl rows) = Some []"
    by (rule rows_to_pairs_no_valid_row)
  then show "read_values_csv to_int (Some rows) = Inl ValueError"
    by (simp add: read_values_csv_def)
next
  fix table
  assume loaded: "read_values_csv to_int file = Inr table"
  then obtain rows pairs where rows: "file = Some rows"
    and pairs: "rows_to_pairs to_int (tl rows) = Some pairs"
    and table: "table = sort_key fst pairs" and ne: "table \<noteq> []"
    by (auto simp: read_values_csv_def Let_def split: option.splits if_splits)
  show "table \<noteq> []" by (rule ne)
  show "sorted (map fst table)"
    unfolding table by (rule sorted_sort_key_fst)
  show "\<exists>rows pairs. file = Some rows \<and> rows_to_pairs to_int (tl rows) = Some pairs \<and>
      set table = set pairs \<and> length table = length pairs"
    using rows pairs table by simp
next
  fix err
  assume "arg_values args = Some path \<and> path \<noteq> [] \<and> arg_monitor args \<and>
    1000 \<le> arg_voltage args \<and> 400 \<le> arg_frequency args \<and> 0 \<le> arg_range args \<and>
    0 < arg_step args \<and> (case arg_reboot args of None \<Rightarrow> True | Some k \<Rightarrow> 0 < k) \<and>
    read_values_csv to_int (files e path) = Inl err"
  then show "main fuel to_int e args = Some (ConfigError err)"
    using config_error_before_device by blast
qed

lemma decimal_examples:
  "decimal ''1100'' = Some 1100" "decimal ''500'' = Some 500"
  "decimal ''1150'' = Some 1150" "decimal ''525'' = Some 525"
  "decimal ''1050'' = Some 1050" "decimal ''475'' = Some 475"
  by (simp_all add: decimal_def digit_value_def)

text \<open>
  Claim C7 on the rows (1100, 500), (1150, 525), (1050, 475) below a header line, on an
  empty file, on a file of a header alone and on a missing file, for which the program
  started in monitor mode ends with FileNotFoundError.
\<close>

theorem table_loading_witness:
  "read_values_csv decimal
     (Some [[''voltage'', ''frequency''], [''1100'', ''500''], [''1150'', ''525''],
            [''1050'', ''475'']]) =
     Inr [(1050, 475), (1100, 500), (1150, 525)] \<and>
   [(1050, 475), (1100, 500), (1150::int, 525::int)] \<noteq> [] \<and>
   sorted (map fst [(1050, 475), (1100, 500), (1150::int, 525::int)]) \<and>
   read_values_csv decimal (Some []) = Inl ValueError \<and>
   read_values_csv decimal (Some [[''voltage'', ''frequency'']]) = Inl ValueError \<and>
   read_values_csv decimal None = Inl FileNotFoundError \<and>
   main 0 decimal (echo_device 0)
     (sweep_args \<lparr> arg_monitor := True, arg_values := Some ''values.csv'' \<rparr>) =
     Some (ConfigError FileNotFoundError)"
  using table_loading [of decimal
      "Some [[''voltage'', ''frequency''], [''1100'', ''500''], [''1150'', ''525''],
             [''1050'', ''475'']]"
      "sweep_args \<lparr> arg_monitor := True, arg_values := Some ''values.csv'' \<rparr>"
      "''values.csv''" "echo_device 0" 0]
  by (simp add: read_values_csv_def decimal_examples sweep_args_def echo_device_def)

text \<open>
  The same three rows without a header line: the first row is consumed as the header.
\<close>

lemma headerless_file_loses_first_row:
  "read_values_csv decimal
     (Some [[''1100'', ''500''], [''1150'', ''525''], [''1050'', ''475'']]) =
     Inr [(1050, 475), (1150, 525)]"
  by (simp add: read_values_csv_def decimal_examples)

section \<open>Properties of the telemetry sample\<close>


lemma read_info_returns: "\<exists>si. read_info data = Inr si"
  by (simp add: read_info_def derive_jth_def truediv_def)

lemma fetch_system_info_returns:
  "\<exists>res. fetch_system_info e st w = Inr res"
proof (cases "info_reply e (requests w) (sent w)")
  case None
  then show ?thesis by (simp add: fetch_system_info_def Let_def)
next
  case (Some data)
  obtain si where "read_info data = Inr si"
    using read_info_returns by blast
  with Some show ?thesis by (simp add: fetch_system_info_def Let_def)
qed



section \<open>Properties of the aggregates\<close>

lemma ext_le_refl: "ext_le a a"
  by (cases a) (simp_all add: ext_le_def)

lemma ext_le_trans: "ext_le a b \<Longrightarrow> ext_le b c \<Longrightarrow> ext_le a c"
  by (cases a; cases b; cases c) (simp_all add: ext_le_def)

lemma ext_le_Fin: "ext_le (Fin a) (Fin b) \<longleftrightarrow> a \<le> b"
  by (simp add: ext_le_def not_less)

lemma py_min_le: "ext_le (py_min a b) a" "ext_le (py_min a b) b"
  by (cases a; cases b; simp add: py_min_def ext_le_def)+

lemma py_max_ge: "ext_le a (py_max a b)" "ext_le b (py_max a b)"
  by (cases a; cases b; simp add: py_max_def ext_le_def)+

lemma py_min_cases: "py_min a b = a \<or> py_min a b = b"
  by (simp add: py_min_def)

lemma py_max_cases: "py_max a b = a \<or> py_max a b = b"
  by (simp add: py_max_def)

lemma fold_update_count:
  "run_count_values (fold update_stats samples r) key = run_count_values r key + length samples"
  by (induction samples arbitrary: r) (simp_all add: update_stats_def)

lemma fold_update_sum:
  "run_sum_values (fold update_stats samples r) key =
     run_sum_values r key + sum_list (map (\<lambda>s. s key) samples)"
  by (induction samples arbitrary: r) (simp_all add: update_stats_def)

lemma fold_update_min_tighter:
  "ext_le (run_min_values (fold update_stats samples r) key) (run_min_values r key)"
proof (induction samples arbitrary: r)
  case Nil
  show ?case by (simp add: ext_le_refl)
next
  case (Cons s samples)
  have "ext_le (run_min_values (update_stats s r) key) (run_min_values r key)"
    by (simp add: update_stats_def py_min_le)
  with Cons [of "update_stats s r"] show ?case
    by (auto intro: ext_le_trans)
qed

lemma fold_update_max_wider:
  "ext_le (run_max_values r key) (run_max_values (fold update_stats samples r) key)"
proof (induction samples arbitrary: r)
  case Nil
  show ?case by (simp add: ext_le_refl)
next
  case (Cons s samples)
  have "ext_le (run_max_values r key) (run_max_values (update_stats s r) key)"
    by (simp add: update_stats_def py_max_ge)
  with Cons [of "update_stats s r"] show ?case
    by (auto intro: ext_le_trans)
qed

lemma fold_update_min_bound:
  "s \<in> set samples \<Longrightarrow> ext_le (run_min_values (fold update_stats samples r) key) (Fin (s key))"
proof (induction samples arbitrary: r)
  case Nil
  then show ?case by simp
next
  case (Cons x samples)
  show ?case
  proof (cases "s \<in> set samples")
    case True
    with Cons.IH show ?thesis by simp
  next
    case False
    with Cons.prems have "s = x" by simp
    then have "ext_le (run_min_values (update_stats x r) key) (Fin (s key))"
      by (simp add: update_stats_def py_min_le)
    with fold_update_min_tighter [of samples "update_stats x r" key] show ?thesis
      by (auto intro: ext_le_trans)
  qed
qed

lemma fold_update_max_bound:
  "s \<in> set samples \<Longrightarrow> ext_le (Fin (s key)) (run_max_values (fold update_stats samples r) key)"
proof (induction samples arbitrary: r)
  case Nil
  then show ?case by simp
next
  case (Cons x samples)
  show ?case
  proof (cases "s \<in> set samples")
    case True
    with Cons.IH show ?thesis by simp
  next
    case False
    with Cons.prems have "s = x" by simp
    then have "ext_le (Fin (s key)) (run_max_values (update_stats x r) key)"
      by (simp add: update_stats_def py_max_ge)
    with fold_update_max_wider [of "update_stats x r" key samples] show ?thesis
      by (auto intro: ext_le_trans)
  qed
qed

lemma fold_update_min_attained:
  "run_min_values (fold update_stats samples r) key = run_min_values r key \<or>
   (\<exists>s \<in> set samples. run_min_values (fold update_stats samples r) key = Fin (s key))"
proof (induction samples arbitrary: r)
  case Nil
  show ?case by simp
next
  case (Cons x samples)
  from Cons [of "update_stats x r"] py_min_cases [of "run_min_values r key" "Fin (x key)"]
  show ?case by (auto simp: update_stats_def)
qed

lemma fold_update_max_attained:
  "run_max_values (fold update_stats samples r) key = run_max_values r key \<or>
   (\<exists>s \<in> set samples. run_max_values (fold update_stats samples r) key = Fin (s key))"
proof (induction samples arbitrary: r)
  case Nil
  show ?case by simp
next
  case (Cons x samples)
  from Cons [of "update_stats x r"] py_max_cases [of "run_max_values r key" "Fin (x key)"]
  show ?case by (auto simp: update_stats_def)
qed

lemma update_stats_global:
  "fst (fold update_global samples g) = run_min_values (fold update_stats samples r) \<and>
   snd (fold update_global samples g) = run_max_values (fold update_stats samples r)"
  if "fst g = run_min_values r" "snd g = run_max_values r"
  using that
proof (induction samples arbitrary: g r)
  case Nil
  then show ?case by simp
next
  case (Cons x samples)
  show ?case
    using Cons.IH [of "update_global x g" "update_stats x r"] Cons.prems
    by (simp add: update_global_def update_stats_def)
qed


text \<open>
  Claim C8. The run and global minima start at plus infinity and the maxima at minus
  infinity. One update never raises a minimum, never lowers a maximum and adds one to
  the count of every key. After the samples of a run (of the process, for the globals)
  have been folded in, the count of each key is the number of samples, the minimum is at
  most and the maximum at least every observed value, both are observed values, and
  sum / count is the arithmetic mean of the observed values.
\<close>

theorem aggregate_invariant:
  "let r = fold update_stats samples new_stats;
       g = fold update_global samples new_global
   in run_min_values new_stats key = PosInf \<and> run_max_values new_stats key = NegInf \<and>
      fst new_global key = PosInf \<and> snd new_global key = NegInf \<and>
      ext_le (run_min_values (update_stats s r0) key) (run_min_values r0 key) \<and>
      ext_le (run_max_values r0 key) (run_max_values (update_stats s r0) key) \<and>
      ext_le (fst (update_global s g0) key) (fst g0 key) \<and>
      ext_le (snd g0 key) (snd (update_global s g0) key) \<and>
      run_count_values (update_stats s r0) key = run_count_values r0 key + 1 \<and>
      run_count_values r key = length samples \<and>
      (\<forall>x \<in> set samples.
         ext_le (run_min_values r key) (Fin (x key)) \<and> ext_le (Fin (x key)) (run_max_values r key) \<and>
         ext_le (fst g key) (Fin (x key)) \<and> ext_le (Fin (x key)) (snd g key)) \<and>
      (samples \<noteq> [] \<longrightarrow>
         (\<exists>x \<in> set samples. run_min_values r key = Fin (x key)) \<and>
         (\<exists>x \<in> set samples. run_max_values r key = Fin (x key)) \<and>
         run_sum_values r key / real (run_count_values r key) =
           sum_list (map (\<lambda>x. x key) samples) / real (length samples))"
proof -
  define r where "r = fold update_stats samples new_stats"
  define g where "g = fold update_global samples new_global"
  have g: "fst g = run_min_values r" "snd g = run_max_values r"
    using update_stats_global [of new_global new_stats samples]
    by (simp_all add: g_def r_def new_global_def new_stats_def)
  have sentinels: "run_min_values new_stats key = PosInf" "run_max_values new_stats key = NegInf"
    "fst new_global key = PosInf" "snd new_global key = NegInf"
    by (simp_all add: new_stats_def new_global_def)
  have step: "ext_le (run_min_values (update_stats s r0) key) (run_min_values r0 key)"
    "ext_le (run_max_values r0 key) (run_max_values (update_stats s r0) key)"
    "ext_le (fst (update_global s g0) key) (fst g0 key)"
    "ext_le (snd g0 key) (snd (update_global s g0) key)"
    "run_count_values (update_stats s r0) key = run_count_values r0 key + 1"
    by (simp_all add: update_stats_def update_global_def py_min_le py_max_ge)
  have count: "run_count_values r key = length samples"
    by (simp add: r_def fold_update_count new_stats_def)
  have total: "run_sum_values r key = sum_list (map (\<lambda>x. x key) samples)"
    by (simp add: r_def fold_update_sum new_stats_def)
  have bounds: "\<forall>x \<in> set samples.
      ext_le (run_min_values r key) (Fin (x key)) \<and> ext_le (Fin (x key)) (run_max_values r key) \<and>
      ext_le (fst g key) (Fin (x key)) \<and> ext_le (Fin (x key)) (snd g key)"
    unfolding g by (simp add: r_def fold_update_min_bound fold_update_max_bound)
  have attained: "(\<exists>x \<in> set samples. run_min_values r key = Fin (x key)) \<and>
      (\<exists>x \<in> set samples. run_max_values r key = Fin (x key))" if "samples \<noteq> []"
  proof -
    from that obtain x where x: "x \<in> set samples" by (cases samples) auto
    have "run_min_values r key \<noteq> PosInf"
      using fold_update_min_bound [OF x, of new_stats key]
      by (auto simp: r_def ext_le_def)
    moreover have "run_max_values r key \<noteq> NegInf"
      using fold_update_max_bound [OF x, of key new_stats]
      by (auto simp: r_def ext_le_def)
    ultimately show ?thesis
      using fold_update_min_attained [of samples new_stats key]
        fold_update_max_attained [of samples new_stats key]
      by (simp add: r_def new_stats_def)
  qed
  from sentinels step count total bounds attained show ?thesis
    unfolding Let_def r_def [symmetric] g_def [symmetric] by simp
qed

text \<open>Claim C8 on two samples with chip temperatures 50 and 60.\<close>

theorem aggregate_invariant_witness:
  "[(\<lambda>_. 0)(Temp := 50), (\<lambda>_. 0)(Temp := 60, HashRate := 500)] \<noteq> ([] :: info list) \<and>
   run_min_values (fold update_stats
       [(\<lambda>_. 0)(Temp := 50), (\<lambda>_. 0)(Temp := 60, HashRate := 500)] new_stats) Temp = Fin 50 \<and>
   run_max_values (fold update_stats
       [(\<lambda>_. 0)(Temp := 50), (\<lambda>_. 0)(Temp := 60, HashRate := 500)] new_stats) Temp = Fin 60 \<and>
   run_sum_values (fold update_stats
       [(\<lambda>_. 0)(Temp := 50), (\<lambda>_. 0)(Temp := 60, HashRate := 500)] new_stats) Temp /
     real (run_count_values (fold update_stats
       [(\<lambda>_. 0)(Temp := 50), (\<lambda>_. 0)(Temp := 60, HashRate := 500)] new_stats) Temp) = 55 \<and>
   fold update_global [(\<lambda>_. 0)(Temp := 50), (\<lambda>_. 0)(Temp := 60, HashRate := 500)] new_global =
     ((\<lambda>_. Fin 0)(Temp := Fin 50), (\<lambda>_. Fin 0)(Temp := Fin 60, HashRate := Fin 500))"
  using aggregate_invariant [of "[(\<lambda>_. 0)(Temp := 50), (\<lambda>_. 0)(Temp := 60, HashRate := 500)]"
      Temp "(\<lambda>_. 0)(Temp := 50)" new_stats new_global]
  by (auto simp: update_stats_def update_global_def new_stats_def new_global_def
      py_min_def py_max_def fun_eq_iff)

section \<open>Properties of applying settings\<close>

lemma set_system_settings_patch_failed:
  assumes "\<not> patch_reply e (requests w)"
  shows "set_system_settings e f v w =
    (False, w \<lparr> console := console w @ [SendingPatch (max 400 f) (max 1000 v), ErrorSettingSystem],
                 sent := sent w @ [(max 400 f, max 1000 v)], requests := Suc (requests w) \<rparr>)"
  using assms by (simp add: set_system_settings_def Let_def say_def CONFIG_def)

lemma set_system_settings_no_readback:
  assumes "patch_reply e (requests w)"
    and "info_reply e (Suc (requests w)) (sent w @ [(max 400 f, max 1000 v)]) = None"
  shows "set_system_settings e f v w =
    (False, w \<lparr> console := console w @
                   [SendingPatch (max 400 f) (max 1000 v), SetTo (max 400 f) (max 1000 v),
                    CouldNotVerify],
                 sent := sent w @ [(max 400 f, max 1000 v)], requests := Suc (Suc (requests w)),
                 clock := clock w + 5 \<rparr>)"
  using assms by (simp add: set_system_settings_def Let_def say_def sleep_def CONFIG_def)

lemma set_system_settings_readback:
  assumes "patch_reply e (requests w)"
    and "info_reply e (Suc (requests w)) (sent w @ [(max 400 f, max 1000 v)]) = Some data"
  shows "set_system_settings e f v w =
    (readback_matches data (max 400 f) (max 1000 v),
     w \<lparr> console := console w @
            [SendingPatch (max 400 f) (max 1000 v), SetTo (max 400 f) (max 1000 v),
             Verified (get_or data ''frequency'' 0) (get_or data ''coreVoltage'' 0)] @
            (if readback_matches data (max 400 f) (max 1000 v) then []
             else [SettingsDidNotApply (max 400 f) (max 1000 v)
                     (get_or data ''frequency'' 0) (get_or data ''coreVoltage'' 0)]),
          sent := sent w @ [(max 400 f, max 1000 v)], requests := Suc (Suc (requests w)),
          clock := clock w + 5 \<rparr>)"
  using assms
  by (simp add: set_system_settings_def Let_def say_def sleep_def CONFIG_def
      readback_matches_def not_less)


text \<open>
  Claim C5. For every requested frequency and core voltage, the payload sent holds the
  values clamped up to 400 MHz and 1000 mV. The call succeeds exactly when the write
  succeeds and the status read that follows it returns values within 1 of the clamped
  ones. After a successful write the clock has advanced by the 5 seconds of the wait and
  two requests have been issued. A failed write, a failed read-back and a mismatch each
  end with the matching error line on the console.
\<close>

theorem apply_settings_contract:
  "let sending = (max (min_frequency CONFIG) f, max (min_core_voltage CONFIG) v);
       written = patch_reply e (requests w);
       readback = info_reply e (Suc (requests w)) (sent w @ [sending]);
       ok = fst (set_system_settings e f v w);
       w' = snd (set_system_settings e f v w)
   in sending = (max 400 f, max 1000 v) \<and>
      sent w' = sent w @ [sending] \<and>
      (ok \<longleftrightarrow>
         written \<and> (\<exists>data. readback = Some data \<and> readback_matches data (fst sending) (snd sending))) \<and>
      (written \<longrightarrow> clock w' = clock w + 5 \<and> requests w' = requests w + 2) \<and>
      (\<not> written \<longrightarrow>
         clock w' = clock w \<and> requests w' = requests w + 1 \<and>
         last (console w') = ErrorSettingSystem) \<and>
      (written \<and> readback = None \<longrightarrow> last (console w') = CouldNotVerify) \<and>
      (\<forall>data. written \<and> readback = Some data \<and>
          \<not> readback_matches data (fst sending) (snd sending) \<longrightarrow>
          last (console w') =
            SettingsDidNotApply (fst sending) (snd sending)
              (get_or data ''frequency'' 0) (get_or data ''coreVoltage'' 0))"
proof -
  have clamp: "(max (min_frequency CONFIG) f, max (min_core_voltage CONFIG) v) =
      (max 400 f, max 1000 v)"
    by (simp add: CONFIG_def)
  show ?thesis
  proof (cases "patch_reply e (requests w)")
    case False
    then show ?thesis
      unfolding Let_def clamp
      by (simp add: set_system_settings_patch_failed)
  next
    case True
    show ?thesis
    proof (cases "info_reply e (Suc (requests w)) (sent w @ [(max 400 f, max 1000 v)])")
      case None
      with True show ?thesis
        unfolding Let_def clamp
        by (simp add: set_system_settings_no_readback)
    next
      case (Some data)
      with True show ?thesis
        unfolding Let_def clamp
        by (simp add: set_system_settings_readback)
    qed
  qed
qed

text \<open>
  Claim C5 on a device that reports a frequency 10 MHz away from the requested 500 MHz
  (failure), and on a request below the minima against a device 1 MHz off (success with
  400 MHz and 1000 mV sent).
\<close>

theorem apply_settings_contract_witness:
  "fst (set_system_settings (echo_device 10) 500 1200 idle_world) = False \<and>
   sent (snd (set_system_settings (echo_device 10) 500 1200 idle_world)) = [(500, 1200)] \<and>
   last (console (snd (set_system_settings (echo_device 10) 500 1200 idle_world))) =
     SettingsDidNotApply 500 1200 510 1200 \<and>
   fst (set_system_settings (echo_device 1) 350 900 idle_world) = True \<and>
   sent (snd (set_system_settings (echo_device 1) 350 900 idle_world)) = [(400, 1000)] \<and>
   clock (snd (set_system_settings (echo_device 1) 350 900 idle_world)) = 5"
  using apply_settings_contract [of 500 1200 "echo_device 10" idle_world]
    apply_settings_contract [of 350 900 "echo_device 1" idle_world]
  by (simp add: Let_def echo_device_def idle_world_def sweep_args_def start_world_def readback_matches_def
      get_or_def CONFIG_def)

text \<open>
  Claim C9. When the reply to the verifying status read lacks the frequency or the
  coreVoltage field, the missing value counts as 0, which is more than 1 away from the
  clamped request, so the call returns False; after a successful write the console ends
  with the line that the settings did not apply.
\<close>

theorem verify_missing_field_fails:
  assumes reply: "info_reply e (Suc (requests w))
      (sent w @ [(max (min_frequency CONFIG) f, max (min_core_voltage CONFIG) v)]) = Some data"
    and missing: "data ''frequency'' = None \<or> data ''coreVoltage'' = None"
  shows "fst (set_system_settings e f v w) = False \<and>
    \<not> readback_matches data (max (min_frequency CONFIG) f) (max (min_core_voltage CONFIG) v) \<and>
    (patch_reply e (requests w) \<longrightarrow>
       last (console (snd (set_system_settings e f v w))) =
         SettingsDidNotApply (max 400 f) (max 1000 v)
           (get_or data ''frequency'' 0) (get_or data ''coreVoltage'' 0))"
proof -
  have clamp: "max (min_frequency CONFIG) f = max 400 f" "max (min_core_voltage CONFIG) v = max 1000 v"
    by (simp_all add: CONFIG_def)
  have "400 \<le> real_of_int (max 400 f)" "1000 \<le> real_of_int (max 1000 v)"
    by simp_all
  with missing have mismatch: "\<not> readback_matches data (max 400 f) (max 1000 v)"
    by (auto simp: readback_matches_def get_or_def)
  show ?thesis
  proof (cases "patch_reply e (requests w)")
    case False
    with mismatch show ?thesis
      by (simp add: set_system_settings_patch_failed clamp)
  next
    case True
    with mismatch reply show ?thesis
      by (simp add: set_system_settings_readback clamp)
  qed
qed

text \<open>Claim C9 on a reply that holds the core voltage only.\<close>

theorem verify_missing_field_fails_witness:
  "info_reply ((echo_device 0) \<lparr> info_reply := (\<lambda>n history. Some [''coreVoltage'' \<mapsto> 1200]) \<rparr>)
     (Suc (requests idle_world))
     (sent idle_world @ [(max (min_frequency CONFIG) 500, max (min_core_voltage CONFIG) 1200)]) =
     Some [''coreVoltage'' \<mapsto> 1200] \<and>
   [''coreVoltage'' \<mapsto> (1200::real)] ''frequency'' = None \<and>
   fst (set_system_settings
     ((echo_device 0) \<lparr> info_reply := (\<lambda>n history. Some [''coreVoltage'' \<mapsto> 1200]) \<rparr>)
     500 1200 idle_world) = False"
  using verify_missing_field_fails [of
      "(echo_device 0) \<lparr> info_reply := (\<lambda>n history. Some [''coreVoltage'' \<mapsto> 1200]) \<rparr>"
      idle_world 500 1200 "[''coreVoltage'' \<mapsto> 1200]"]
  by (simp add: echo_device_def)

section \<open>The critical flag is never cleared\<close>

lemma flag_say [simp]: "critical_temp_reached (say m w) = critical_temp_reached w"
  by (simp add: say_def)

lemma flag_sleep [simp]: "critical_temp_reached (sleep d w) = critical_temp_reached w"
  by (simp add: sleep_def)

lemma flag_set_system_settings [simp]:
  "critical_temp_reached (snd (set_system_settings e f v w)) = critical_temp_reached w"
  by (simp add: set_system_settings_def Let_def say_def sleep_def split: option.splits)

lemma flag_log_data [simp]:
  "critical_temp_reached (snd (log_data f v n note_text aggregates w)) = critical_temp_reached w"
  by (simp add: log_data_def Let_def split: option.splits)

lemma flag_display_status [simp]:
  "critical_temp_reached (display_status k n tt w) = critical_temp_reached w"
  by (simp add: display_status_def)

lemma flag_update_best [simp]:
  "critical_temp_reached (update_best f v st w) = critical_temp_reached w"
  by (simp add: update_best_def Let_def)

lemma flag_reboot_bitaxe [simp]:
  "critical_temp_reached (snd (reboot_bitaxe e w)) = critical_temp_reached w"
  by (simp add: reboot_bitaxe_def Let_def)

lemma flag_apply_best_or_initial [simp]:
  "critical_temp_reached (apply_best_or_initial e allowed no_best w) = critical_temp_reached w"
proof -
  have a: "critical_temp_reached
      (case set_system_settings e bf bv w1 of
         (True, w2) \<Rightarrow> w2
       | (False, w2) \<Rightarrow>
           snd (set_system_settings e (initial_frequency w2) (initial_core_voltage w2)
                  (say FailedBest w2))) = critical_temp_reached w1" for bf bv w1
    using flag_set_system_settings [of e bf bv w1]
    by (cases "set_system_settings e bf bv w1") (auto split: bool.splits)
  show ?thesis
    unfolding apply_best_or_initial_def
    by (simp add: a split: bool.splits option.splits)
qed

lemma flag_fetch_system_info:
  "fetch_system_info e st w = Inr (res, st', w') \<Longrightarrow>
     critical_temp_reached w' = critical_temp_reached w"
  by (auto simp: fetch_system_info_def Let_def say_def split: option.splits sum.splits)

lemma flag_critical_stop:
  "critical_temp_reached (snd (critical_stop e monitor_mode n si r w))"
  by (simp add: critical_stop_def Let_def)

lemma flag_reboot_check [simp]:
  "critical_temp_reached (snd (reboot_check e n threshold si r w)) = critical_temp_reached w"
proof -
  have b: "critical_temp_reached (snd (case reboot_bitaxe e w2 of
        (True, w3) \<Rightarrow> (ra, sleep 30 w3) | (False, w3) \<Rightarrow> (rb, say RebootFailed w3))) =
      critical_temp_reached w2" for w2 and ra rb :: run
    using flag_reboot_bitaxe [of e w2]
    by (cases "reboot_bitaxe e w2") (auto split: bool.splits)
  show ?thesis
    unfolding reboot_check_def Let_def
    by (simp add: b)
qed

lemma flag_adjust_step [simp]:
  "critical_temp_reached (snd (snd (adjust_step e n si r w))) = critical_temp_reached w"
proof -
  obtain nf nv fb lines where sel: "adjust_settings_based_on_values (value_pairs w) si (clock w)
      (last_fallback w) (run_frequency r) (run_core_voltage r) = ((nf, nv), fb, lines)"
    by (metis prod.exhaust)
  define w1 where "w1 = w \<lparr> last_fallback := fb, console := console w @ lines \<rparr>"
  have w1: "critical_temp_reached w1 = critical_temp_reached w"
    by (simp add: w1_def)
  obtain ok w2 where app: "set_system_settings e nf nv w1 = (ok, w2)"
    by (metis prod.exhaust)
  with flag_set_system_settings [of e nf nv w1] w1
  have "critical_temp_reached w2 = critical_temp_reached w" by simp
  with sel app w1 show ?thesis
    unfolding adjust_step_def
    by (cases ok) (simp_all add: Let_def w1_def [symmetric])
qed

lemma flag_finish_iteration [simp]:
  "critical_temp_reached (snd (finish_iteration n tt changed r w)) = critical_temp_reached w"
  by (simp add: finish_iteration_def Let_def)

section \<open>A critical trip in a sweep\<close>

lemma flag_count_reading [simp]:
  "critical_temp_reached (snd (count_reading e n rt si st r w)) = critical_temp_reached w"
  by (simp add: count_reading_def Let_def split: option.splits)

lemma react_flag:
  assumes "react e n tt monitor_mode values_file si r w = (res, r', w')"
  shows "(critical_temp_reached w \<longrightarrow> critical_temp_reached w') \<and>
         (res \<noteq> None \<longrightarrow> \<not> values_file \<and> critical_temp_reached w') \<and>
         (\<not> values_file \<and> critical_hit si \<longrightarrow> res \<noteq> None)"
proof (cases "monitor_mode \<and> values_file \<and>
    readings_since_adjustment r \<ge> readings_to_advance CONFIG")
  case True
  obtain ch r3 w3 where adj: "adjust_step e n si r w = (ch, r3, w3)"
    by (metis prod.exhaust)
  have "critical_temp_reached w3 = critical_temp_reached w"
    using flag_adjust_step [of e n si r w] adj by simp
  moreover have "w' = snd (finish_iteration n tt ch r3 w3)" "res = None"
    using assms True adj by (auto simp: react_def)
  ultimately show ?thesis using True by simp
next
  case False
  show ?thesis
  proof (cases "\<not> values_file \<and> critical_hit si")
    case True
    have "w' = snd (critical_stop e monitor_mode n si r w)" "res \<noteq> None"
      using assms False True by (auto simp: react_def split: prod.splits)
    with True show ?thesis by (simp add: flag_critical_stop)
  next
    case nocrit: False
    have "w' = snd (finish_iteration n tt False r w)" "res = None"
      using assms False nocrit by (auto simp: react_def)
    with nocrit show ?thesis by simp
  qed
qed

lemma poll_step_flag:
  assumes "poll_step e n rt tt monitor_mode values_file r w = Inr (res, r', w')"
  shows "(critical_temp_reached w \<longrightarrow> critical_temp_reached w') \<and>
         (res \<noteq> None \<longrightarrow> \<not> values_file \<and> critical_temp_reached w')"
proof -
  obtain fetched st w1 where f: "fetch_system_info e (run_stats r) w = Inr (fetched, st, w1)"
    using fetch_system_info_returns [of e "run_stats r" w] by (metis prod.exhaust)
  have w1: "critical_temp_reached w1 = critical_temp_reached w"
    using flag_fetch_system_info [OF f] .
  show ?thesis
  proof (cases fetched)
    case None
    with assms f w1 show ?thesis
      by (auto simp: poll_step_def)
  next
    case (Some si)
    obtain r2 w2 where c: "count_reading e n rt si st r w1 = (r2, w2)"
      by (metis prod.exhaust)
    have w2: "critical_temp_reached w2 = critical_temp_reached w"
      using flag_count_reading [of e n rt si st r w1] c w1 by simp
    from assms f Some c have "react e n tt monitor_mode values_file si r2 w2 = (res, r', w')"
      by (simp add: poll_step_def)
    from react_flag [OF this] w2 show ?thesis by simp
  qed
qed

lemma poll_flag:
  "poll fuel e n rt tt monitor_mode values_file r w = Some (Inr (res, r', w')) \<Longrightarrow>
     (critical_temp_reached w \<longrightarrow> critical_temp_reached w') \<and>
     (res \<noteq> None \<longrightarrow> \<not> values_file \<and> critical_temp_reached w')"
proof (induction fuel arbitrary: r w)
  case 0
  then show ?case by (auto split: if_splits)
next
  case (Suc fuel)
  show ?case
  proof (cases "polling e monitor_mode r w")
    case False
    with Suc.prems show ?thesis by simp
  next
    case True
    show ?thesis
    proof (cases "poll_step e n rt tt monitor_mode values_file r w")
      case (Inl crash)
      with Suc.prems True show ?thesis by simp
    next
      case (Inr stepped)
      obtain res1 r1 w1 where stepped: "stepped = (res1, r1, w1)"
        by (metis prod.exhaust)
      note st = poll_step_flag [OF Inr [unfolded stepped]]
      show ?thesis
      proof (cases res1)
        case None
        with Suc.prems True Inr stepped
        have "poll fuel e n rt tt monitor_mode values_file r1 w1 = Some (Inr (res, r', w'))"
          by simp
        from Suc.IH [OF this] st show ?thesis by blast
      next
        case (Some csv_filename)
        with Suc.prems True Inr stepped have "res = res1" "w' = w1" by simp_all
        with st show ?thesis by simp
      qed
    qed
  qed
qed

lemma run_test_flag:
  assumes "run_test fuel e f v n rt tt monitor_mode values_file w = Some (Inr (res, w'))"
    and "critical_temp_reached w"
  shows "critical_temp_reached w'"
proof -
  obtain ok w1 where app: "set_system_settings e f v w = (ok, w1)"
    by (metis prod.exhaust)
  have w1: "critical_temp_reached w1"
    using flag_set_system_settings [of e f v w] app assms(2) by simp
  show ?thesis
  proof (cases ok)
    case False
    with assms(1) app w1 show ?thesis
      by (auto simp: run_test_def)
  next
    case True
    define w2 where "w2 = say (RunStarted n f v) w1"
    define r0 where "r0 = \<lparr> run_frequency = f, run_core_voltage = v,
      start_time = clock w2, last_log_time = clock w2, reading_count = 0,
      run_stats = new_stats, last_hashrate = None,
      identical_hashrate_count = 0, readings_since_adjustment = 0 \<rparr>"
    have w2: "critical_temp_reached w2" by (simp add: w2_def w1)
    from assms(1) app True obtain res1 r1 w3 where
      p: "poll fuel e n rt tt monitor_mode values_file r0 w2 = Some (Inr (res1, r1, w3))"
      and w': "w' = w3 \<or> w' = snd (log_data (run_frequency r1) (run_core_voltage r1) n NoNote
            (Some (run_stats r1))
            (update_best (run_frequency r1) (run_core_voltage r1) (run_stats r1) w3))"
      unfolding run_test_def
      by (auto simp: Let_def w2_def [symmetric] r0_def [symmetric]
          split: option.splits sum.splits prod.splits if_splits)
    from poll_flag [OF p] w2 have "critical_temp_reached w3" by simp
    with w' show ?thesis by auto
  qed
qed


lemma sweep_stops_on_flag:
  assumes "run_test fuel e f v n rt tt False False w = Some (Inr (res, w1))"
    and "critical_temp_reached w1"
  shows "sweep fuel e v rt tt ((n, f) # rest) w = Some (Inr w1)"
  using assms by simp

lemma finish_sweep_skips_restore:
  assumes "critical_temp_reached w"
  shows "finish_sweep e w = display_summary w"
  using assms by (simp add: finish_sweep_def)

lemma display_summary_sends_nothing:
  "sent (display_summary w) = sent w" "requests (display_summary w) = requests w"
  by (simp_all add: display_summary_def say_def)

text \<open>
  Claim C10. In a run without a table, an iteration that fetches a sample with a
  critical hit returns from the run with the critical flag set; the loop returns from
  inside only through that path; a run that starts with the flag set ends with it set,
  so nothing clears it. When a run of the sweep ends with the flag set, the sweep ends
  in the state that run left, whatever frequencies remain, and the end of the program
  only displays the summary: no request is sent after the run.
\<close>

theorem critical_trip_halts_sweep:
  "(fetch_system_info e (run_stats r) wa = Inr (Some si, st, wb) \<and> critical_hit si \<longrightarrow>
      (\<exists>csv_filename rb wc.
         poll_step e n rt tt monitor_mode False r wa = Inr (Some csv_filename, rb, wc) \<and>
         critical_temp_reached wc)) \<and>
   (poll fuel e n rt tt monitor_mode values_file r wa = Some (Inr (Some csv_filename, rc, wd)) \<longrightarrow>
      \<not> values_file \<and> critical_temp_reached wd) \<and>
   (run_test fuel e f v n rt tt monitor_mode values_file w = Some (Inr (res, we)) \<and>
      critical_temp_reached w \<longrightarrow> critical_temp_reached we) \<and>
   (run_test fuel e f v n rt tt False False w = Some (Inr (res, we)) \<and>
      critical_temp_reached we \<longrightarrow>
      sweep fuel e v rt tt ((n, f) # rest) w = Some (Inr we) \<and>
      finish_sweep e we = display_summary we \<and>
      sent (finish_sweep e we) = sent we \<and> requests (finish_sweep e we) = requests we)"
proof (intro conjI impI)
  assume a: "fetch_system_info e (run_stats r) wa = Inr (Some si, st, wb) \<and> critical_hit si"
  obtain rb wc where c: "count_reading e n rt si st r wb = (rb, wc)"
    by (metis prod.exhaust)
  obtain resb rc wd where re: "react e n tt monitor_mode False si rb wc = (resb, rc, wd)"
    by (metis prod.exhaust)
  from react_flag [OF re] a obtain csv_filename where
    "resb = Some csv_filename" "critical_temp_reached wd" by auto
  with a c re show "\<exists>csv_filename rb wc.
      poll_step e n rt tt monitor_mode False r wa = Inr (Some csv_filename, rb, wc) \<and>
      critical_temp_reached wc"
    by (simp add: poll_step_def)
next
  assume "poll fuel e n rt tt monitor_mode values_file r wa = Some (Inr (Some csv_filename, rc, wd))"
  from poll_flag [OF this] show "\<not> values_file" "critical_temp_reached wd" by simp_all
next
  assume "run_test fuel e f v n rt tt monitor_mode values_file w = Some (Inr (res, we)) \<and>
    critical_temp_reached w"
  then show "critical_temp_reached we" using run_test_flag by blast
next
  assume a: "run_test fuel e f v n rt tt False False w = Some (Inr (res, we)) \<and>
    critical_temp_reached we"
  then show "sweep fuel e v rt tt ((n, f) # rest) w = Some (Inr we)"
    using sweep_stops_on_flag by blast
  from a show "finish_sweep e we = display_summary we"
    by (simp add: finish_sweep_skips_restore)
  then show "sent (finish_sweep e we) = sent we" "requests (finish_sweep e we) = requests we"
    by (simp_all add: display_summary_sends_nothing)
qed

text \<open>
  Claim C10 on a device at 70 degrees: the first run of the sweep stops at its first
  reading, after writing the reduced and then the best settings; the second planned
  frequency is never applied and the end of the program sends nothing.
\<close>

theorem critical_trip_halts_sweep_witness:
  "(case run_test (Suc 0) hot_device 490 1200 1 None 5 False False idle_world of
      Some (Inr (res, w4)) \<Rightarrow>
        critical_temp_reached w4 \<and>
        sent w4 = [(490, 1200), (480, 1190), (490, 1200)] \<and>
        sweep (Suc 0) hot_device 1200 None 5 [(1, 490), (2, 495)] idle_world = Some (Inr w4) \<and>
        sent (finish_sweep hot_device w4) = sent w4
    | _ \<Rightarrow> False)"
proof -
  have run: "(case run_test (Suc 0) hot_device 490 1200 1 None 5 False False idle_world of
      Some (Inr (res, w4)) \<Rightarrow>
        critical_temp_reached w4 \<and> sent w4 = [(490, 1200), (480, 1190), (490, 1200)]
    | _ \<Rightarrow> False)"
    by code_simp
  then obtain res w4 where r:
    "run_test (Suc 0) hot_device 490 1200 1 None 5 False False idle_world = Some (Inr (res, w4))"
    and flag: "critical_temp_reached w4"
    and s: "sent w4 = [(490, 1200), (480, 1190), (490, 1200)]"
    by (auto split: option.splits sum.splits)
  note tail = critical_trip_halts_sweep [where e = hot_device and fuel = "Suc 0" and f = 490
      and v = 1200 and n = 1 and rt = None and tt = 5 and w = idle_world and res = res
      and we = w4 and rest = "[(2, 495)]", THEN conjunct2, THEN conjunct2, THEN conjunct2,
      rule_format, OF conjI [OF r flag]]
  have "sweep (Suc 0) hot_device 1200 None 5 [(1, 490), (2, 495)] idle_world = Some (Inr w4)"
    by (rule tail [THEN conjunct1])
  moreover have "sent (finish_sweep hot_device w4) = sent w4"
    by (rule tail [THEN conjunct2, THEN conjunct2, THEN conjunct1])
  ultimately have "critical_temp_reached w4 \<and>
      sent w4 = [(490, 1200), (480, 1190), (490, 1200)] \<and>
      sweep (Suc 0) hot_device 1200 None 5 [(1, 490), (2, 495)] idle_world = Some (Inr w4) \<and>
      sent (finish_sweep hot_device w4) = sent w4"
    using flag s by blast
  then show ?thesis
    by (simp only: r option.case sum.case prod.case)
qed

section \<open>The sweep against a responsive device\<close>

lemma same_books_refl [simp]: "same_books w w"
  by (simp add: same_books_def)



lemma same_books_sleep [simp]: "same_books w (sleep d w)"
  by (simp add: same_books_def sleep_def)


lemma same_books_display_status [simp]: "same_books w (display_status k n tt w)"
  by (simp add: same_books_def display_status_def say_def)


lemma sent_say [simp]: "sent (say m w) = sent w"
  by (simp add: say_def)

lemma sent_sleep [simp]: "sent (sleep d w) = sent w"
  by (simp add: sleep_def)

lemma sent_log_data [simp]: "sent (snd (log_data f v n note_text aggregates w)) = sent w"
  by (simp add: log_data_def Let_def split: option.splits)

lemma sent_display_status [simp]: "sent (display_status k n tt w) = sent w"
  by (simp add: display_status_def)


lemma clock_say [simp]: "clock (say m w) = clock w"
  by (simp add: say_def)

lemma clock_sleep [simp]: "clock (sleep d w) = clock w + d"
  by (simp add: sleep_def)

lemma clock_log_data [simp]: "clock (snd (log_data f v n note_text aggregates w)) = clock w"
  by (simp add: log_data_def Let_def split: option.splits)

lemma clock_display_status [simp]: "clock (display_status k n tt w) = clock w"
  by (simp add: display_status_def)


lemma same_books_through [simp]:
  "same_books (say m a) b = same_books a b"
  "same_books a (say m b) = same_books a b"
  "same_books a (sleep d b) = same_books a b"
  "same_books a (snd (log_data f v n note_text None b)) = same_books a b"
  "same_books a (display_status k n tt b) = same_books a b"
  by (simp_all add: same_books_def say_def sleep_def log_data_def display_status_def)



























end
